theory Spec2Isabelle
  imports Complex_Main "HOL-Library.Char_ord" "HOL-Library.List_Lexorder" "HOL-Library.Multiset"
begin

text \<open>
  A shallow embedding of the resume analyzer (\<open>app/services.py\<close>, with the catalogs of
  \<open>app/constants.py\<close>, the models of \<open>app/models.py\<close> and the audit write of
  \<open>app/db_service.py\<close>): the skill extractor, the experience and education analyzers, the
  role scorer, the feedback generator with its retry loop, and the orchestrator. Pure
  functions are HOL functions; exceptions are values; the calls to the generation service,
  the sleeps between them and the audit log are an explicit state; the document parsers,
  the entity recogniser, the generation service, the clock and the iteration order of sets
  are parameters. Log messages are left out.
\<close>

section \<open>Strings\<close>

text \<open>
  A Python string is a sequence of code points. It is modelled as a \<open>string\<close>, each
  character standing for the code point of its number, U+0000 to U+00FF. On these code
  points the character classes are the ones of Python: \<open>str.lower\<close> maps \<open>A\<close>..\<open>Z\<close> and the
  capital letters U+00C0..U+00DE (but not the multiplication sign U+00D7) to the letter 32
  places on and leaves every other character alone; whitespace, for \<open>str.strip\<close>,
  \<open>str.isspace\<close> and \<open>\s\<close>, is U+0009..U+000D, U+001C..U+0020, U+0085 and U+00A0; a decimal
  digit, for \<open>\d\<close>, is \<open>0\<close>..\<open>9\<close>; a word character, for \<open>\w\<close> and \<open>\b\<close>, is an alphanumeric
  character or the underscore.
\<close>

definition lower_char :: "char \<Rightarrow> char" where
  "lower_char c =
     (let n = (of_char c :: nat)
      in if (65 \<le> n \<and> n \<le> 90) \<or> (192 \<le> n \<and> n \<le> 214) \<or> (216 \<le> n \<and> n \<le> 222)
         then char_of (n + 32) else c)"

definition lower :: "string \<Rightarrow> string" where
  "lower s = map lower_char s"

definition is_space :: "char \<Rightarrow> bool" where
  "is_space c =
     (let n = (of_char c :: nat)
      in (9 \<le> n \<and> n \<le> 13) \<or> (28 \<le> n \<and> n \<le> 32) \<or> n = 133 \<or> n = 160)"

definition is_digit :: "char \<Rightarrow> bool" where
  "is_digit c = (let n = (of_char c :: nat) in 48 \<le> n \<and> n \<le> 57)"

definition is_word :: "char \<Rightarrow> bool" where
  "is_word c =
     (let n = (of_char c :: nat)
      in (48 \<le> n \<and> n \<le> 57) \<or> (65 \<le> n \<and> n \<le> 90) \<or> n = 95 \<or> (97 \<le> n \<and> n \<le> 122) \<or>
         n = 170 \<or> n = 178 \<or> n = 179 \<or> n = 181 \<or> n = 185 \<or> n = 186 \<or>
         (188 \<le> n \<and> n \<le> 190) \<or> (192 \<le> n \<and> n \<le> 214) \<or> (216 \<le> n \<and> n \<le> 246) \<or>
         (248 \<le> n \<and> n \<le> 255))"

definition strip :: "string \<Rightarrow> string" where
  "strip s = rev (dropWhile is_space (rev (dropWhile is_space s)))"

definition endswith :: "string \<Rightarrow> string \<Rightarrow> bool" where
  "endswith s suffix =
     (length suffix \<le> length s \<and> drop (length s - length suffix) s = suffix)"

definition newline :: char where
  "newline = CHR 0x0A"

definition replace_newline :: "string \<Rightarrow> string" where
  \<comment> \<open>\<open>s.replace("\n", " ")\<close>\<close>
  "replace_newline s = map (\<lambda>c. if c = newline then CHR '' '' else c) s"

definition slice :: "string \<Rightarrow> nat \<Rightarrow> nat \<Rightarrow> string" where
  \<comment> \<open>\<open>s[i:j]\<close> for \<open>0 \<le> i\<close>, \<open>0 \<le> j\<close>\<close>
  "slice s i j = take (j - i) (drop i s)"

section \<open>Data model: \<open>models.py\<close> and \<open>constants.py\<close>\<close>

record Skill =
  name :: string
  category :: string

record RoleMatch =
  role :: string
  score :: rat

record requirements =
  required_skills :: "string list"
  good_to_have :: "string list"
  experience_keywords :: "string list"

text \<open>
  The two catalogs are Python dicts: association lists in insertion order, with distinct keys.
\<close>

definition SKILL_CATEGORIES :: "(string \<times> string list) list" where
  "SKILL_CATEGORIES =
    [(''Programming Languages'',
        [''python'', ''java'', ''javascript'', ''typescript'', ''c++'', ''c#'', ''go'', ''golang'',
         ''ruby'', ''php'', ''swift'', ''kotlin'', ''r'', ''matlab'', ''sql'', ''scala'', ''perl'',
         ''rust'']),
     (''Web Development (Frontend)'',
        [''html'', ''css'', ''react'', ''angular'', ''vue'', ''vue.js'', ''next.js'', ''nextjs'',
         ''svelte'', ''jquery'', ''bootstrap'', ''tailwind'', ''tailwindcss'', ''sass'', ''less'',
         ''webpack'', ''babel'']),
     (''Web Development (Backend)'',
        [''node.js'', ''nodejs'', ''express'', ''django'', ''flask'', ''fastapi'', ''ruby on rails'',
         ''spring'', ''spring boot'', ''.net'', ''asp.net'', ''laravel'']),
     (''Database Systems'',
        [''mysql'', ''postgresql'', ''mongodb'', ''redis'', ''oracle'', ''sqlite'',
         ''microsoft sql server'', ''sql server'', ''cassandra'', ''elasticsearch'', ''dynamodb'',
         ''firebase'']),
     (''DevOps & Cloud'',
        [''aws'', ''azure'', ''gcp'', ''google cloud platform'', ''docker'', ''kubernetes'', ''k8s'',
         ''terraform'', ''ansible'', ''jenkins'', ''gitlab ci'', ''github actions'', ''ci/cd'',
         ''prometheus'', ''grafana'', ''linux'', ''bash'', ''powershell'', ''nginx'', ''apache'']),
     (''Data Science & ML'',
        [''tensorflow'', ''pytorch'', ''scikit-learn'', ''keras'', ''pandas'', ''numpy'', ''scipy'',
         ''matplotlib'', ''seaborn'', ''jupyter'', ''spark'', ''apache spark'', ''hadoop'', ''nlp'',
         ''computer vision'', ''opencv'', ''d3.js'', ''tableau'', ''power bi'', ''looker'']),
     (''Project Management & Tools'',
        [''agile'', ''scrum'', ''kanban'', ''jira'', ''confluence'', ''trello'', ''asana'', ''git'',
         ''github'', ''gitlab'', ''bitbucket'', ''svn'', ''project management'']),
     (''Soft Skills'',
        [''leadership'', ''communication'', ''teamwork'', ''problem solving'', ''analytical'',
         ''critical thinking'', ''collaboration'', ''mentoring'', ''adaptability'',
         ''time management''])]"

definition JOB_ROLES :: "(string \<times> requirements) list" where
  "JOB_ROLES =
    [(''Software Engineer'',
        \<lparr>required_skills = [''python'', ''java'', ''javascript'', ''sql'', ''git'', ''teamwork''],
         good_to_have = [''docker'', ''kubernetes'', ''aws'', ''ci/cd'', ''agile'', ''react'',
                         ''node.js'', ''c++''],
         experience_keywords = [''development'', ''implementation'', ''testing'', ''debugging'',
                                ''optimization'', ''code review'']\<rparr>),
     (''Data Scientist'',
        \<lparr>required_skills = [''python'', ''r'', ''sql'', ''pandas'', ''scikit-learn'', ''matplotlib''],
         good_to_have = [''tensorflow'', ''pytorch'', ''spark'', ''tableau'', ''power bi'', ''nlp'',
                         ''computer vision'', ''aws''],
         experience_keywords = [''analysis'', ''modeling'', ''visualization'', ''research'',
                                ''prediction'', ''a/b testing'', ''algorithms'']\<rparr>),
     (''Frontend Developer'',
        \<lparr>required_skills = [''html'', ''css'', ''javascript'', ''react'', ''git'', ''api''],
         good_to_have = [''typescript'', ''vue'', ''angular'', ''next.js'', ''tailwind'', ''figma'',
                         ''sass'', ''webpack''],
         experience_keywords = [''frontend'', ''ui'', ''user interface'', ''web applications'',
                                ''responsive'', ''cross-browser'']\<rparr>),
     (''Backend Developer'',
        \<lparr>required_skills = [''node.js'', ''python'', ''java'', ''sql'', ''api'', ''rest'', ''git'',
                            ''mongodb'', ''postgresql''],
         good_to_have = [''docker'', ''kubernetes'', ''aws'', ''gcp'', ''django'', ''flask'',
                         ''spring boot'', ''microservices'', ''graphql''],
         experience_keywords = [''backend'', ''api development'', ''database design'',
                                ''server-side'', ''microservices'', ''performance'']\<rparr>),
     (''DevOps Engineer'',
        \<lparr>required_skills = [''linux'', ''aws'', ''docker'', ''kubernetes'', ''ci/cd'', ''jenkins'',
                            ''terraform'', ''bash''],
         good_to_have = [''python'', ''ansible'', ''prometheus'', ''grafana'', ''gcp'', ''azure'',
                         ''security''],
         experience_keywords = [''automation'', ''deployment'', ''monitoring'', ''infrastructure'',
                                ''iac'', ''scalability'', ''reliability'']\<rparr>)]"

section \<open>Role scorer\<close>

text \<open>
  Scores are Python floats in the source. The model computes them in exact rational
  arithmetic; \<open>round(x, 2)\<close> is rounding to the nearest hundredth, an exact tie going to the
  even neighbour.
\<close>

definition round_half_even :: "rat \<Rightarrow> int" where
  "round_half_even y =
     (let f = \<lfloor>y\<rfloor>; d = y - of_int f
      in if d < 1 / 2 then f else if 1 / 2 < d then f + 1 else if even f then f else f + 1)"

definition round_2 :: "rat \<Rightarrow> rat" where
  \<comment> \<open>\<open>round(x, 2)\<close>\<close>
  "round_2 x = of_int (round_half_even (x * 100)) / 100"

definition skill_names :: "Skill list \<Rightarrow> string set" where
  \<comment> \<open>\<open>{s.name.lower() for s in skills}\<close>\<close>
  "skill_names skills = set (map (\<lambda>s. lower (name s)) skills)"

definition role_score :: "string set \<Rightarrow> requirements \<Rightarrow> rat" where
  \<comment> \<open>the body of the loop of \<open>suggest_role_matches\<close>: the totals are list lengths\<close>
  "role_score skill_names_found reqs =
     (let total_required = length (required_skills reqs);
          total_good_to_have = length (good_to_have reqs);
          required_found = skill_names_found \<inter> set (required_skills reqs);
          good_to_have_found = skill_names_found \<inter> set (good_to_have reqs);
          required_score =
            (if total_required > 0 then of_nat (card required_found) / of_nat total_required
             else 0);
          good_to_have_score =
            (if total_good_to_have > 0
             then of_nat (card good_to_have_found) / of_nat total_good_to_have else 0);
          final_score = (required_score * (7 / 10) + good_to_have_score * (3 / 10)) * 100
      in final_score)"

definition suggest_role_matches :: "Skill list \<Rightarrow> RoleMatch list" where
  "suggest_role_matches skills =
     (let skill_names_found = skill_names skills;
          role_scores = map (\<lambda>(r, reqs). (r, role_score skill_names_found reqs)) JOB_ROLES;
          sorted_roles = sort_key (\<lambda>item. - snd item) role_scores
      in map (\<lambda>(r, sc). \<lparr>role = r, score = round_2 sc\<rparr>) sorted_roles)"

text \<open>
  The dict returned by \<open>analyze_target_role\<close>; its keys \<open>role\<close> and \<open>score\<close> are the fields
  \<open>target\<close> and \<open>target_score\<close>.
\<close>

record TargetRoleAnalysis =
  target :: string
  target_score :: rat
  required_found :: "string list"
  required_missing :: "string list"
  good_to_have_found :: "string list"
  good_to_have_missing :: "string list"

definition analyze_target_role :: "Skill list \<Rightarrow> string \<Rightarrow> TargetRoleAnalysis option" where
  "analyze_target_role skills target_role =
     (case map_of JOB_ROLES target_role of
        None \<Rightarrow> None
      | Some reqs \<Rightarrow>
          (let skill_names_found = skill_names skills;
               required_skills_set = set (required_skills reqs);
               good_to_have_set = set (good_to_have reqs);
               total_required = card required_skills_set;
               total_good_to_have = card good_to_have_set;
               required_found_count = card (skill_names_found \<inter> required_skills_set);
               good_to_have_found_count = card (skill_names_found \<inter> good_to_have_set);
               req_score =
                 (if total_required > 0 then of_nat required_found_count / of_nat total_required
                  else 0);
               gth_score =
                 (if total_good_to_have > 0
                  then of_nat good_to_have_found_count / of_nat total_good_to_have else 0);
               final_score = (req_score * (7 / 10) + gth_score * (3 / 10)) * 100
           in Some \<lparr>target = target_role,
                    target_score = final_score,
                    required_found =
                      sorted_list_of_set (skill_names_found \<inter> required_skills_set),
                    required_missing =
                      sorted_list_of_set (required_skills_set - skill_names_found),
                    good_to_have_found =
                      sorted_list_of_set (skill_names_found \<inter> good_to_have_set),
                    good_to_have_missing =
                      sorted_list_of_set (good_to_have_set - skill_names_found)\<rparr>))"

section \<open>Regular expressions of the \<open>re\<close> module\<close>

text \<open>
  The patterns of the source are built from literals, \<open>\d\<close>, \<open>\s\<close>, \<open>\b\<close>, concatenation,
  alternation and the greedy quantifiers \<open>?\<close>, \<open>*\<close>, \<open>+\<close>. \<open>ends ic r s i\<close> lists the end
  positions of the matches of \<open>r\<close> in \<open>s\<close> that start at \<open>i\<close>, in the order in which the
  backtracking matcher of \<open>re\<close> tries them; its head is the match that \<open>re\<close> reports.
  \<open>ic\<close> is the flag \<open>re.IGNORECASE\<close>.
\<close>

datatype regex =
    Eps
  | Lit char
  | Digit
  | Space
  | WordB
  | Seq regex regex
  | Alt regex regex
  | Opt regex
  | Star regex
  | Plus regex

definition word_boundary :: "string \<Rightarrow> nat \<Rightarrow> bool" where
  \<comment> \<open>\<open>\b\<close>: exactly one of the characters before and after position \<open>i\<close> is a word character\<close>
  "word_boundary s i =
     ((0 < i \<and> i \<le> length s \<and> is_word (s ! (i - 1))) \<noteq> (i < length s \<and> is_word (s ! i)))"

definition char_eq :: "bool \<Rightarrow> char \<Rightarrow> char \<Rightarrow> bool" where
  "char_eq ic a b = (if ic then lower_char a = lower_char b else a = b)"

fun star_from :: "(nat \<Rightarrow> nat list) \<Rightarrow> nat \<Rightarrow> nat \<Rightarrow> nat list" where
  \<comment> \<open>greedy iteration of a step that consumes at least one character; the second argument
      bounds the number of iterations by the characters left\<close>
  "star_from step 0 i = [i]"
| "star_from step (Suc n) i =
     concat (map (\<lambda>j. if i < j then star_from step n j else []) (step i)) @ [i]"

fun ends :: "bool \<Rightarrow> regex \<Rightarrow> string \<Rightarrow> nat \<Rightarrow> nat list" where
  "ends ic Eps s i = [i]"
| "ends ic (Lit c) s i = (if i < length s \<and> char_eq ic (s ! i) c then [Suc i] else [])"
| "ends ic Digit s i = (if i < length s \<and> is_digit (s ! i) then [Suc i] else [])"
| "ends ic Space s i = (if i < length s \<and> is_space (s ! i) then [Suc i] else [])"
| "ends ic WordB s i = (if word_boundary s i then [i] else [])"
| "ends ic (Seq r1 r2) s i = concat (map (\<lambda>j. ends ic r2 s j) (ends ic r1 s i))"
| "ends ic (Alt r1 r2) s i = ends ic r1 s i @ ends ic r2 s i"
| "ends ic (Opt r) s i = ends ic r s i @ [i]"
| "ends ic (Star r) s i = star_from (\<lambda>j. ends ic r s j) (length s - i) i"
| "ends ic (Plus r) s i =
     concat (map (\<lambda>j. star_from (\<lambda>k. ends ic r s k) (length s - j) j) (ends ic r s i))"

definition seq :: "regex list \<Rightarrow> regex" where
  "seq rs = foldr Seq rs Eps"

definition alt :: "regex list \<Rightarrow> regex" where
  "alt rs = foldr Alt (butlast rs) (last rs)"

definition re_escape :: "string \<Rightarrow> regex" where
  \<comment> \<open>\<open>re.escape(s)\<close>: the pattern that matches exactly the characters of \<open>s\<close>\<close>
  "re_escape s = seq (map Lit s)"

definition re_search :: "bool \<Rightarrow> regex \<Rightarrow> string \<Rightarrow> (nat \<times> nat) option" where
  \<comment> \<open>\<open>re.search\<close>: the leftmost match, as \<open>(m.start(), m.end())\<close>\<close>
  "re_search ic r s =
     map_option (\<lambda>i. (i, hd (ends ic r s i)))
       (find (\<lambda>i. ends ic r s i \<noteq> []) [0..<Suc (length s)])"

fun scan :: "bool \<Rightarrow> regex \<Rightarrow> string \<Rightarrow> nat \<Rightarrow> nat \<Rightarrow> (nat \<times> nat) list" where
  \<comment> \<open>\<open>scan ic r s n pos\<close>: the matches from position \<open>pos = Suc (length s) - n\<close> on, left to
      right and not overlapping. No pattern of the source matches the empty string; after an
      empty match the scan would move on by one character.\<close>
  "scan ic r s 0 pos = []"
| "scan ic r s (Suc n) pos =
     (case ends ic r s pos of
        [] \<Rightarrow> scan ic r s n (Suc pos)
      | e # _ \<Rightarrow> (pos, e) # (if pos < e then scan ic r s (Suc n - (e - pos)) e
                             else scan ic r s n (Suc pos)))"

definition re_finditer :: "bool \<Rightarrow> regex \<Rightarrow> string \<Rightarrow> (nat \<times> nat) list" where
  "re_finditer ic r s = scan ic r s (Suc (length s)) 0"

section \<open>Skill extractor\<close>

definition skill_pattern :: "string \<Rightarrow> regex" where
  \<comment> \<open>\<open>r'\b' + re.escape(skill_lower) + r's?\b'\<close>\<close>
  "skill_pattern skill_lower = seq [WordB, re_escape skill_lower, Opt (Lit CHR ''s''), WordB]"

fun skills_loop ::
  "string \<Rightarrow> string \<Rightarrow> string list \<Rightarrow> Skill list \<times> string set \<Rightarrow> Skill list \<times> string set"
where
  \<comment> \<open>the inner loop, over the keywords of one category; the state is
      \<open>(skills_found, found_skill_names)\<close>\<close>
  "skills_loop text_lower cat [] st = st"
| "skills_loop text_lower cat (skill # rest) (skills_found, found_skill_names) =
     (let skill_lower = lower skill
      in if skill_lower \<in> found_skill_names
         then skills_loop text_lower cat rest (skills_found, found_skill_names)
         else if re_search False (skill_pattern skill_lower) text_lower \<noteq> None
         then skills_loop text_lower cat rest
                (skills_found @ [\<lparr>name = skill, category = cat\<rparr>],
                 insert skill_lower found_skill_names)
         else skills_loop text_lower cat rest (skills_found, found_skill_names))"

fun categories_loop ::
  "string \<Rightarrow> (string \<times> string list) list \<Rightarrow> Skill list \<times> string set \<Rightarrow> Skill list \<times> string set"
where
  "categories_loop text_lower [] st = st"
| "categories_loop text_lower ((cat, skills_list) # rest) st =
     categories_loop text_lower rest (skills_loop text_lower cat skills_list st)"

definition extract_skills_from :: "(string \<times> string list) list \<Rightarrow> string \<Rightarrow> Skill list" where
  \<comment> \<open>the body of \<open>extract_skills\<close>, for any catalog\<close>
  "extract_skills_from catalog text = fst (categories_loop (lower text) catalog ([], {}))"

definition extract_skills :: "string \<Rightarrow> Skill list" where
  "extract_skills text = extract_skills_from SKILL_CATEGORIES text"

section \<open>Experience and education analyzers\<close>

text \<open>
  Python exceptions are values of \<open>exn\<close>; a computation that may raise returns \<open>exn + 'a\<close>.
\<close>

datatype exn = ValueError string | IndexError string | Exception string

text \<open>
  The order in which \<open>list(set(xs))\<close> enumerates a set of strings is fixed by the string hash
  of the interpreter, which is seeded per process, not by the program. The model takes the
  order as a parameter \<open>h\<close>: the distinct elements are listed by ascending \<open>h\<close>.
\<close>

definition list_of_set :: "(string \<Rightarrow> nat) \<Rightarrow> string list \<Rightarrow> string list" where
  "list_of_set h xs = sort_key h (remdups xs)"

record ent =
  ent_text :: string
  label :: string

definition year_patterns :: "regex list" where
  "year_patterns =
     [seq [WordB, Plus Digit, Star Space, Opt (seq [Lit CHR ''+'', Star Space]),
           re_escape ''year'', Opt (Lit CHR ''s''), WordB],
      seq [WordB, Plus Digit, Lit CHR ''-'', Plus Digit, Star Space,
           re_escape ''year'', Opt (Lit CHR ''s''), WordB]]"

definition analyze_experience ::
  "(string \<Rightarrow> nat) \<Rightarrow> string \<Rightarrow> (string \<Rightarrow> exn + ent list) \<Rightarrow> string list"
where
  "analyze_experience h text nlp_model =
     (let experience_matches =
            concat (map (\<lambda>pattern.
              map (\<lambda>(i, j). ''Mention of: '' @ slice text i j) (re_finditer True pattern text))
              year_patterns);
          experience_matches =
            (case nlp_model text of
               Inl e \<Rightarrow> experience_matches
             | Inr ents \<Rightarrow>
                 (let date_entities =
                        map (\<lambda>e. replace_newline (ent_text e))
                          (filter (\<lambda>e. label e = ''DATE'') ents)
                  in if date_entities \<noteq> []
                     then (let unique_dates =
                                 sort_key (\<lambda>d. - int (length d)) (list_of_set h date_entities)
                           in experience_matches @ [''Key Dates Found:''] @ take 10 unique_dates)
                     else experience_matches))
      in list_of_set h experience_matches)"

definition opt_dot :: regex where
  "opt_dot = Opt (Lit CHR ''.'')"

definition education_keywords :: "regex list" where
  "education_keywords =
     [seq [WordB,
           alt [seq [Lit CHR ''B'', opt_dot, Lit CHR ''S'', opt_dot],
                seq [Lit CHR ''M'', opt_dot, Lit CHR ''S'', opt_dot],
                seq [Lit CHR ''P'', Lit CHR ''h'', opt_dot, Lit CHR ''D'', opt_dot],
                seq [Lit CHR ''B'', opt_dot, Lit CHR ''A'', opt_dot],
                seq [Lit CHR ''M'', opt_dot, Lit CHR ''B'', opt_dot, Lit CHR ''A'', opt_dot],
                seq [Lit CHR ''B'', opt_dot, re_escape ''Tech''],
                seq [Lit CHR ''M'', opt_dot, re_escape ''Tech''],
                seq [Lit CHR ''B'', opt_dot, Lit CHR ''E'', opt_dot],
                seq [Lit CHR ''M'', opt_dot, Lit CHR ''E'', opt_dot]],
           WordB],
      seq [WordB, re_escape ''University'', WordB],
      seq [WordB, re_escape ''College'', WordB],
      seq [WordB, re_escape ''Institute of Technology'', WordB],
      seq [WordB, re_escape ''Degree'', WordB],
      seq [WordB, re_escape ''Bachelor'', WordB],
      seq [WordB, re_escape ''Master'', WordB],
      seq [WordB,
           alt [re_escape ''Cum Laude'', re_escape ''Magna Cum Laude'',
                re_escape ''Summa Cum Laude''],
           WordB]]"

definition analyze_education :: "(string \<Rightarrow> nat) \<Rightarrow> string \<Rightarrow> string list" where
  "analyze_education h text =
     (let education_found =
            concat (map (\<lambda>pattern.
              map (\<lambda>(i, j).
                     (let context_start = i - 30  \<comment> \<open>\<open>max(0, m.start() - 30)\<close>: on \<open>nat\<close>, \<open>-\<close> stops at 0\<close>;
                          context_end = min (length text) (j + 30)
                      in strip (replace_newline (slice text context_start context_end))))
                  (re_finditer True pattern text))
              education_keywords)
      in list_of_set h education_found)"

section \<open>Text extraction\<close>

text \<open>
  What the two document libraries do with the uploaded bytes is outside the program. A file
  stream is modelled by what the code can observe of it: opening it as a PDF raises or yields
  pages whose \<open>extract_text()\<close> raises or returns a text or nothing; opening it as a DOCX
  raises or yields paragraphs whose \<open>text\<close> raises or is a string.
\<close>

record file_stream =
  PdfReader :: "exn + (exn + string option) list"
  Document :: "exn + (exn + string) list"

fun pdf_pages :: "(exn + string option) list \<Rightarrow> string \<Rightarrow> string" where
  \<comment> \<open>the loop over the pages; an exception ends it and the handler returns \<open>text\<close> as it is\<close>
  "pdf_pages [] text = text"
| "pdf_pages (Inl e # pages) text = text"
| "pdf_pages (Inr page_text # pages) text =
     (case page_text of
        None \<Rightarrow> pdf_pages pages text
      | Some t \<Rightarrow> if t \<noteq> [] then pdf_pages pages (text @ t @ [newline])
                  else pdf_pages pages text)"

definition extract_text_from_pdf :: "file_stream \<Rightarrow> string" where
  "extract_text_from_pdf fs =
     (case PdfReader fs of Inl e \<Rightarrow> [] | Inr pages \<Rightarrow> pdf_pages pages [])"

fun docx_paragraphs :: "(exn + string) list \<Rightarrow> string \<Rightarrow> string" where
  "docx_paragraphs [] text = text"
| "docx_paragraphs (Inl e # paras) text = text"
| "docx_paragraphs (Inr t # paras) text = docx_paragraphs paras (text @ t @ [newline])"

definition extract_text_from_docx :: "file_stream \<Rightarrow> string" where
  "extract_text_from_docx fs =
     (case Document fs of Inl e \<Rightarrow> [] | Inr paras \<Rightarrow> docx_paragraphs paras [])"

section \<open>Feedback generator\<close>

text \<open>
  The gap data is a Python dict read with \<open>get\<close>: a record of optional entries. The prompt is
  kept as the values the template interpolates.
\<close>

record analysis_data =
  d_role :: "string option"
  d_score :: "rat option"
  d_required_found :: "string list option"
  d_required_missing :: "string list option"
  d_good_to_have_found :: "string list option"
  d_good_to_have_missing :: "string list option"
  d_total_skills :: "nat option"
  d_experience_keywords :: "string list option"

definition empty_data :: analysis_data where
  \<comment> \<open>\<open>{}\<close>\<close>
  "empty_data =
     \<lparr>d_role = None, d_score = None, d_required_found = None, d_required_missing = None,
      d_good_to_have_found = None, d_good_to_have_missing = None, d_total_skills = None,
      d_experience_keywords = None\<rparr>"

record prompt =
  p_role :: string
  p_skills_found :: string
  p_required_missing :: string
  p_good_to_have_missing :: string
  p_total_skills :: nat
  p_keyword :: string

fun join :: "string \<Rightarrow> string list \<Rightarrow> string" where
  "join sep [] = []"
| "join sep [x] = x"
| "join sep (x # y # ys) = x @ sep @ join sep (y # ys)"

definition joined_or_None :: "string list option \<Rightarrow> string" where
  \<comment> \<open>\<open>', '.join(analysis_data.get(key, [])) or 'None'\<close>\<close>
  "joined_or_None v =
     (let s = join '', '' (case v of None \<Rightarrow> [] | Some xs \<Rightarrow> xs)
      in if s = [] then ''None'' else s)"

definition prompt_template :: "analysis_data \<Rightarrow> exn + prompt" where
  \<comment> \<open>the f-string; indexing an empty \<open>experience_keywords\<close> list with \<open>[0]\<close> raises\<close>
  "prompt_template analysis_data =
     (case (case d_experience_keywords analysis_data of None \<Rightarrow> [''...''] | Some ks \<Rightarrow> ks) of
        [] \<Rightarrow> Inl (IndexError ''list index out of range'')
      | k # _ \<Rightarrow>
          Inr \<lparr>p_role = (case d_role analysis_data of None \<Rightarrow> ''N/A'' | Some r \<Rightarrow> r),
               p_skills_found = joined_or_None (d_required_found analysis_data),
               p_required_missing = joined_or_None (d_required_missing analysis_data),
               p_good_to_have_missing = joined_or_None (d_good_to_have_missing analysis_data),
               p_total_skills = (case d_total_skills analysis_data of None \<Rightarrow> 0 | Some n \<Rightarrow> n),
               p_keyword = k\<rparr>)"

text \<open>
  A completion of the generation service, as far as the code reads it: \<open>response.text\<close>
  raises when the model stopped for a reason other than success, and each candidate has the
  name of its finish reason, whose reading may raise as well.
\<close>

record candidate =
  finish_reason_name :: "exn + string"

record response =
  response_text :: "exn + string"
  candidates :: "candidate list"

text \<open>
  The surroundings of one request: the configuration, the external services and the clock.
  \<open>generate_content_async env n p\<close> is the outcome of the \<open>n\<close>-th call of the generation
  service (counting from 0) on prompt \<open>p\<close>.
\<close>

record env =
  GEMINI_API_KEY :: "string option"
  configure :: "string \<Rightarrow> exn option"
  generate_content_async :: "nat \<Rightarrow> prompt \<Rightarrow> exn + response"
  hash :: "string \<Rightarrow> nat"
  start_time :: rat
  end_time :: rat
  utcnow :: nat
  insert_one_fails :: bool

record log_document =
  timestamp :: nat
  file_name :: string
  log_target_role :: string
  match_score :: rat
  skills_found_count :: nat
  analysis_duration_ms :: int

text \<open>
  The effects of a request: the calls made to the generation service, the delays slept
  between them, and the documents of the \<open>logs\<close> collection.
\<close>

record world =
  calls :: "prompt list"
  sleeps :: "nat list"
  logs :: "log_document list"

definition max_retries :: nat where
  "max_retries = 3"

definition failure_message :: "response option \<Rightarrow> string" where
  \<comment> \<open>the last branch of the handler, with its inner \<open>try\<close>\<close>
  "failure_message resp =
     (case resp of
        None \<Rightarrow> ''Error: Unable to generate AI feedback (No response from model).''
      | Some r \<Rightarrow>
          (case candidates r of
             [] \<Rightarrow> ''Error: Unable to generate AI feedback (No response from model).''
           | c # _ \<Rightarrow>
               (case finish_reason_name c of
                  Inr reason_name \<Rightarrow>
                    ''Error: AI feedback generation failed (Reason: '' @ reason_name @ '').''
                | Inl inner_e \<Rightarrow> ''Error: Unable to generate AI feedback at this time.'')))"

fun attempts ::
  "env \<Rightarrow> prompt \<Rightarrow> nat list \<Rightarrow> nat \<Rightarrow> response option \<Rightarrow> world \<Rightarrow> string \<times> world"
where
  \<comment> \<open>\<open>for attempt in range(max_retries)\<close>, with the loop variables \<open>delay\<close> and \<open>response\<close>\<close>
  "attempts env p [] delay resp w = (''Error: AI feedback generation failed.'', w)"
| "attempts env p (attempt # rest) delay resp w =
     (let outcome = generate_content_async env (length (calls w)) p;
          w = w\<lparr>calls := calls w @ [p]\<rparr>;
          resp = (case outcome of Inl e \<Rightarrow> resp | Inr r \<Rightarrow> Some r)
      in case (case outcome of Inl e \<Rightarrow> Inl e | Inr r \<Rightarrow> response_text r) of
           Inr text_response \<Rightarrow> (text_response, w)
         | Inl e \<Rightarrow>
             if attempt < max_retries - 1
             then attempts env p rest (delay * 2) resp (w\<lparr>sleeps := sleeps w @ [delay]\<rparr>)
             else (failure_message resp, w))"

definition get_personalized_feedback ::
  "env \<Rightarrow> analysis_data \<Rightarrow> world \<Rightarrow> (exn + string) \<times> world"
where
  "get_personalized_feedback env analysis_data w =
     (case GEMINI_API_KEY env of
        None \<Rightarrow> (Inr ''Error: AI feedback service is not configured.'', w)
      | Some apiKey \<Rightarrow>
          if apiKey = [] \<or> apiKey = ''YOUR_GEMINI_API_KEY_GOES_HERE''
          then (Inr ''Error: AI feedback service is not configured.'', w)
          else
            (case configure env apiKey of
               Some e \<Rightarrow> (Inr ''Error: Could not configure AI feedback service.'', w)
             | None \<Rightarrow>
                 (case prompt_template analysis_data of
                    Inl e \<Rightarrow> (Inl e, w)
                  | Inr p \<Rightarrow>
                      (let (s, w) = attempts env p [0..<max_retries] 1 None w
                       in (Inr s, w)))))"

section \<open>Audit log\<close>

definition log_analysis_to_db :: "env \<Rightarrow> log_document \<Rightarrow> world \<Rightarrow> world" where
  \<comment> \<open>a failing insert is logged and swallowed\<close>
  "log_analysis_to_db env doc w =
     (if insert_one_fails env then w else w\<lparr>logs := logs w @ [doc]\<rparr>)"

section \<open>Analysis orchestrator\<close>

record AnalysisResponse =
  fileName :: string
  extractedText :: string
  skillsFound :: "Skill list"
  roleMatches :: "RoleMatch list"
  targetRoleAnalysis :: "TargetRoleAnalysis option"
  experienceSummary :: "string list"
  educationSummary :: "string list"
  personalizedFeedback :: string

definition truncate_int :: "rat \<Rightarrow> int" where
  \<comment> \<open>\<open>int(x)\<close>: towards zero\<close>
  "truncate_int x = (if 0 \<le> x then \<lfloor>x\<rfloor> else \<lceil>x\<rceil>)"

definition feedback_data_of :: "Skill list \<Rightarrow> string \<Rightarrow> TargetRoleAnalysis option \<Rightarrow> analysis_data" where
  \<comment> \<open>step 3: \<open>{}\<close>, or a copy of the target-role analysis with two more entries\<close>
  "feedback_data_of skills target_role target_role_analysis =
     (case target_role_analysis of
        None \<Rightarrow> empty_data
      | Some a \<Rightarrow>
          \<lparr>d_role = Some (target a), d_score = Some (target_score a),
           d_required_found = Some (required_found a),
           d_required_missing = Some (required_missing a),
           d_good_to_have_found = Some (good_to_have_found a),
           d_good_to_have_missing = Some (good_to_have_missing a),
           d_total_skills = Some (length skills),
           d_experience_keywords =
             Some (case map_of JOB_ROLES target_role of
                     None \<Rightarrow> [] | Some reqs \<Rightarrow> experience_keywords reqs)\<rparr>)"

definition analyze_resume_file ::
  "env \<Rightarrow> file_stream \<Rightarrow> string \<Rightarrow> string \<Rightarrow> (string \<Rightarrow> exn + ent list) \<Rightarrow> world
     \<Rightarrow> (exn + AnalysisResponse) \<times> world"
where
  "analyze_resume_file env fs filename target_role nlp_model w =
     (case (if endswith filename ''.pdf'' then Inr (extract_text_from_pdf fs)
            else if endswith filename ''.docx'' then Inr (extract_text_from_docx fs)
            else Inl (ValueError ''Unsupported file type'')) of
        Inl e \<Rightarrow> (Inl e, w)
      | Inr text \<Rightarrow>
          if strip text = []
          then (Inl (ValueError
                  ''Could not extract text from the document. It might be empty or image-based.''),
                w)
          else
            (let skills = extract_skills text;
                 experience_summary = analyze_experience (hash env) text nlp_model;
                 education_summary = analyze_education (hash env) text;
                 role_matches = suggest_role_matches skills;
                 target_role_analysis = analyze_target_role skills target_role;
                 feedback_data = feedback_data_of skills target_role target_role_analysis;
                 target_score = (case target_role_analysis of
                                   None \<Rightarrow> 0 | Some a \<Rightarrow> target_score a)
             in case get_personalized_feedback env feedback_data w of
                  (Inl e, w) \<Rightarrow> (Inl e, w)
                | (Inr personalized_feedback, w) \<Rightarrow>
                    (let duration_ms = truncate_int ((end_time env - start_time env) * 1000);
                         log_doc = \<lparr>timestamp = utcnow env, file_name = filename,
                                    log_target_role = target_role, match_score = target_score,
                                    skills_found_count = length skills,
                                    analysis_duration_ms = duration_ms\<rparr>;
                         w = log_analysis_to_db env log_doc w
                     in (Inr \<lparr>fileName = filename,
                               extractedText = take 2000 text @ ''...'',
                               skillsFound = skills,
                               roleMatches = role_matches,
                               targetRoleAnalysis = target_role_analysis,
                               experienceSummary = experience_summary,
                               educationSummary = education_summary,
                               personalizedFeedback = personalized_feedback\<rparr>,
                         w))))"

section \<open>Definitions used to state the properties\<close>

text \<open>
  The scoring contract in the words of the specification: \<open>F\<close> the lowercased found
  names, \<open>R\<close> the required and \<open>G\<close> the good-to-have set of a role.
\<close>

definition ratio :: "string set \<Rightarrow> string set \<Rightarrow> rat" where
  "ratio F R = (if R = {} then 0 else of_nat (card (F \<inter> R)) / of_nat (card R))"

definition spec_score :: "string set \<Rightarrow> string set \<Rightarrow> string set \<Rightarrow> rat" where
  "spec_score F R G = round_2 ((7 / 10 * ratio F R + 3 / 10 * ratio F G) * 100)"

definition raw_score :: "string set \<Rightarrow> string set \<Rightarrow> string set \<Rightarrow> rat" where
  \<comment> \<open>the same formula before rounding\<close>
  "raw_score F R G = (7 / 10 * ratio F R + 3 / 10 * ratio F G) * 100"

text \<open>
  The weighted score as a function of the two counts and the two totals.
\<close>

definition weighted_score :: "nat \<Rightarrow> nat \<Rightarrow> nat \<Rightarrow> nat \<Rightarrow> rat" where
  "weighted_score a n b m =
     ((if n > 0 then of_nat a / of_nat n else 0) * (7 / 10) +
      (if m > 0 then of_nat b / of_nat m else 0) * (3 / 10)) * 100"



text \<open>
  The text the orchestrator extracts for a supported file name, and the line each page or
  paragraph contributes to it.
\<close>

definition extracted_text :: "file_stream \<Rightarrow> string \<Rightarrow> string" where
  "extracted_text fs filename =
     (if endswith filename ''.pdf'' then extract_text_from_pdf fs else extract_text_from_docx fs)"

definition pdf_line :: "exn + string option \<Rightarrow> string" where
  "pdf_line page =
     (case page of Inr (Some t) \<Rightarrow> if t \<noteq> [] then t @ [newline] else [] | _ \<Rightarrow> [])"

definition docx_line :: "exn + string \<Rightarrow> string" where
  "docx_line para = (case para of Inr t \<Rightarrow> t @ [newline] | Inl e \<Rightarrow> [])"

text \<open>
  The (category, keyword) pairs of a catalog in the order in which \<open>extract_skills\<close> visits
  them, its two nested loops as one loop over these pairs, and a small catalog in which a
  keyword is listed under two categories.
\<close>

definition flat_catalog :: "(string \<times> string list) list \<Rightarrow> (string \<times> string) list" where
  \<comment> \<open>the (category, keyword) pairs of a catalog, in the order the two loops visit them\<close>
  "flat_catalog catalog = concat (map (\<lambda>(cat, skills_list). map (Pair cat) skills_list) catalog)"

fun pairs_loop ::
  "string \<Rightarrow> (string \<times> string) list \<Rightarrow> Skill list \<times> string set \<Rightarrow> Skill list \<times> string set"
where
  "pairs_loop text_lower [] st = st"
| "pairs_loop text_lower ((cat, skill) # rest) (skills_found, found_skill_names) =
     (let skill_lower = lower skill
      in if skill_lower \<in> found_skill_names
         then pairs_loop text_lower rest (skills_found, found_skill_names)
         else if re_search False (skill_pattern skill_lower) text_lower \<noteq> None
         then pairs_loop text_lower rest
                (skills_found @ [\<lparr>name = skill, category = cat\<rparr>],
                 insert skill_lower found_skill_names)
         else pairs_loop text_lower rest (skills_found, found_skill_names))"

definition catalog2 :: "(string \<times> string list) list" where
  "catalog2 = [(''Languages'', [''go'', ''Java'']), (''Tools'', [''java'', ''git'', ''Go''])]"

text \<open>
  Concrete surroundings for the worked instances: a configured credential, a generation
  service that is down, and a world in which nothing has happened yet.
\<close>

definition env0 :: env where
  "env0 = \<lparr>GEMINI_API_KEY = Some ''key'', configure = (\<lambda>k. None),
           generate_content_async = (\<lambda>n p. Inl (Exception ''unavailable'')),
           hash = length, start_time = 0, end_time = 3, utcnow = 0, insert_one_fails = False\<rparr>"

definition w0 :: world where
  "w0 = \<lparr>calls = [], sleeps = [], logs = []\<rparr>"

section \<open>Properties\<close>

subsection \<open>Rounding and the score grid of the role catalog\<close>

lemma round_half_even_close: "\<bar>of_int (round_half_even y) - y\<bar> \<le> 1 / 2"
proof -
  have "of_int \<lfloor>y\<rfloor> \<le> y" "y < of_int \<lfloor>y\<rfloor> + 1" by linarith+
  then show ?thesis
    by (auto simp: round_half_even_def Let_def)
qed

lemma round_half_even_mono: assumes "x \<le> y" shows "round_half_even x \<le> round_half_even y"
proof (cases "\<lfloor>x\<rfloor> = \<lfloor>y\<rfloor>")
  case True
  with assms show ?thesis by (auto simp: round_half_even_def Let_def)
next
  case False
  with assms have "\<lfloor>x\<rfloor> + 1 \<le> \<lfloor>y\<rfloor>" using floor_mono[OF assms] by linarith
  moreover have "round_half_even x \<le> \<lfloor>x\<rfloor> + 1" by (auto simp: round_half_even_def Let_def)
  moreover have "\<lfloor>y\<rfloor> \<le> round_half_even y" by (auto simp: round_half_even_def Let_def)
  ultimately show ?thesis by linarith
qed

lemma round_2_mono: "x \<le> y \<Longrightarrow> round_2 x \<le> round_2 y"
  by (simp add: round_2_def round_half_even_mono divide_right_mono)

lemma round_half_even_of_int: "round_half_even (of_int n) = n"
  by (simp add: round_half_even_def Let_def)

lemma round_2_0: "round_2 0 = 0"
  using round_half_even_of_int[of 0] by (simp add: round_2_def)

lemma round_2_100: "round_2 100 = 100"
  using round_half_even_of_int[of 10000] by (simp add: round_2_def)

lemma role_score_weighted:
  "role_score F reqs =
     weighted_score (card (F \<inter> set (required_skills reqs))) (length (required_skills reqs))
                    (card (F \<inter> set (good_to_have reqs))) (length (good_to_have reqs))"
  by (simp add: role_score_def weighted_score_def Let_def)

lemma weighted_score_range:
  assumes "a \<le> n" "b \<le> m"
  shows "0 \<le> weighted_score a n b m \<and> weighted_score a n b m \<le> 100"
proof -
  define u :: rat where "u = (if n > 0 then of_nat a / of_nat n else 0)"
  define v :: rat where "v = (if m > 0 then of_nat b / of_nat m else 0)"
  have u: "0 \<le> u" "u \<le> 1"
    using assms by (simp_all add: u_def divide_le_eq)
  have v: "0 \<le> v" "v \<le> 1"
    using assms by (simp_all add: v_def divide_le_eq)
  have "weighted_score a n b m = (u * (7 / 10) + v * (3 / 10)) * 100"
    by (simp add: weighted_score_def u_def v_def)
  with u v show ?thesis by simp
qed

lemma weighted_score_6_8:
  "weighted_score a 6 b 8 * 100 = 125 * of_int (588 * int a + 189 * int b) / 63"
  by (simp add: weighted_score_def field_simps)

lemma weighted_score_9_9:
  "weighted_score a 9 b 9 * 100 = 125 * of_int (392 * int a + 168 * int b) / 63"
  by (simp add: weighted_score_def field_simps)

lemma weighted_score_8_7:
  "weighted_score a 8 b 7 * 100 = 125 * of_int (441 * int a + 216 * int b) / 63"
  by (simp add: weighted_score_def field_simps)

lemma grid_int_le: "125 * d \<le> (63::int) \<Longrightarrow> d \<le> 0"
  by linarith

lemma round_half_even_grid_inj:
  assumes "round_half_even (125 * of_int n / 63) = round_half_even (125 * of_int n' / 63)"
  shows "n = n'"
proof -
  let ?y = "125 * of_int n / 63 :: rat" and ?y' = "125 * of_int n' / 63 :: rat"
  have "\<bar>of_int (round_half_even ?y) - ?y\<bar> \<le> 1 / 2" "\<bar>of_int (round_half_even ?y') - ?y'\<bar> \<le> 1 / 2"
    by (rule round_half_even_close)+
  with assms have a: "?y - ?y' \<le> 1" and b: "?y' - ?y \<le> 1"
    unfolding abs_le_iff by linarith+
  have "(of_int (125 * (n - n')) :: rat) \<le> of_int 63"
    using a by simp
  then have "125 * (n - n') \<le> 63" unfolding of_int_le_iff .
  then have a': "n \<le> n'" using grid_int_le[of "n - n'"] by simp
  have "(of_int (125 * (n' - n)) :: rat) \<le> of_int 63"
    using b by simp
  then have "125 * (n' - n) \<le> 63" unfolding of_int_le_iff .
  then have "n' \<le> n" using grid_int_le[of "n' - n"] by simp
  with a' show ?thesis by simp
qed

lemma JOB_ROLES_sizes_all:
  "list_all (\<lambda>(r, reqs). (length (required_skills reqs), length (good_to_have reqs)) \<in> {(6, 8), (9, 9), (8, 7)}) JOB_ROLES"
  by (simp add: JOB_ROLES_def)

lemma JOB_ROLES_distinct_all:
  "list_all (\<lambda>(r, reqs). distinct (required_skills reqs) \<and> distinct (good_to_have reqs)) JOB_ROLES"
  by (simp add: JOB_ROLES_def)

lemma JOB_ROLES_keys: "distinct (map fst JOB_ROLES)"
  by (simp add: JOB_ROLES_def)

lemma JOB_ROLES_sizes:
  assumes "(r, reqs) \<in> set JOB_ROLES"
  shows "(length (required_skills reqs), length (good_to_have reqs)) \<in> {(6, 8), (9, 9), (8, 7)}"
  using JOB_ROLES_sizes_all assms unfolding list_all_iff by fast

lemma JOB_ROLES_distinct:
  assumes "(r, reqs) \<in> set JOB_ROLES"
  shows "distinct (required_skills reqs) \<and> distinct (good_to_have reqs)"
  using JOB_ROLES_distinct_all assms unfolding list_all_iff by fast

lemma weighted_score_grid:
  assumes "(n, m) \<in> {(6, 8), (9, 9), (8, 7)}"
  shows "\<exists>k::int. weighted_score a n b m * 100 = 125 * of_int k / 63"
proof -
  from assms consider "n = 6 \<and> m = 8" | "n = 9 \<and> m = 9" | "n = 8 \<and> m = 7" by auto
  then show ?thesis
  proof cases
    case 1
    then show ?thesis using weighted_score_6_8[of a b] by blast
  next
    case 2
    then show ?thesis using weighted_score_9_9[of a b] by blast
  next
    case 3
    then show ?thesis using weighted_score_8_7[of a b] by blast
  qed
qed

lemma JOB_ROLES_grid:
  assumes "(r, reqs) \<in> set JOB_ROLES"
  shows "\<exists>n::int. role_score F reqs * 100 = 125 * of_int n / 63"
  unfolding role_score_weighted
  by (rule weighted_score_grid[OF JOB_ROLES_sizes[OF assms]])

lemma JOB_ROLES_round_inj:
  assumes "(r, reqs) \<in> set JOB_ROLES" "(r', reqs') \<in> set JOB_ROLES"
    and "round_2 (role_score F reqs) = round_2 (role_score F reqs')"
  shows "role_score F reqs = role_score F reqs'"
proof -
  from JOB_ROLES_grid[OF assms(1)] obtain n :: int where n: "role_score F reqs * 100 = 125 * of_int n / 63" by blast
  from JOB_ROLES_grid[OF assms(2)] obtain n' :: int where n': "role_score F reqs' * 100 = 125 * of_int n' / 63" by blast
  from assms(3) have "round_half_even (125 * of_int n / 63) = round_half_even (125 * of_int n' / 63)"
    by (simp add: round_2_def n n')
  then have "n = n'" by (rule round_half_even_grid_inj)
  with n n' show ?thesis by simp
qed


lemma role_score_spec:
  assumes "(r, reqs) \<in> set JOB_ROLES"
  shows "round_2 (role_score F reqs) = spec_score F (set (required_skills reqs)) (set (good_to_have reqs))"
proof -
  from JOB_ROLES_distinct[OF assms]
  have c: "card (set (required_skills reqs)) = length (required_skills reqs)"
          "card (set (good_to_have reqs)) = length (good_to_have reqs)"
    by (simp_all add: distinct_card)
  have e: "(set (required_skills reqs) = {}) = (length (required_skills reqs) = 0)"
          "(set (good_to_have reqs) = {}) = (length (good_to_have reqs) = 0)"
    by simp_all
  show ?thesis
    unfolding spec_score_def ratio_def role_score_weighted weighted_score_def c e
    by (simp add: mult.commute)
qed

lemma role_score_range: "0 \<le> role_score F reqs \<and> role_score F reqs \<le> 100"
proof -
  have "card (F \<inter> set xs) \<le> length xs" for xs :: "string list"
    by (meson List.finite_set card_length card_mono inf_le2 le_trans)
  then show ?thesis
    unfolding role_score_weighted by (intro weighted_score_range)
qed

lemma round_2_range: "0 \<le> x \<Longrightarrow> x \<le> 100 \<Longrightarrow> 0 \<le> round_2 x \<and> round_2 x \<le> 100"
  using round_2_mono[of 0 x] round_2_mono[of x 100] by (simp add: round_2_0 round_2_100)

lemma stable_rounded:
  fixes xs :: "('a \<times> rat) list"
  assumes inj: "\<And>x y. x \<in> set xs \<Longrightarrow> y \<in> set xs \<Longrightarrow> round_2 (snd x) = round_2 (snd y) \<Longrightarrow> snd x = snd y"
  shows "filter (\<lambda>x. round_2 (snd x) = k) (sort_key (\<lambda>item. - snd item) xs)
       = filter (\<lambda>x. round_2 (snd x) = k) xs"
proof (cases "\<exists>x0 \<in> set xs. round_2 (snd x0) = k")
  case True
  then obtain x0 where x0: "x0 \<in> set xs" "round_2 (snd x0) = k" by blast
  have P: "(round_2 (snd x) = k) = (- snd x = - snd x0)" if "x \<in> set xs" for x
    using inj[OF that x0(1)] x0(2) by auto
  have "filter (\<lambda>x. round_2 (snd x) = k) (sort_key (\<lambda>item. - snd item) xs)
      = filter (\<lambda>x. - snd x = - snd x0) (sort_key (\<lambda>item. - snd item) xs)"
    by (rule filter_cong) (simp_all add: P)
  also have "\<dots> = filter (\<lambda>x. - snd x = - snd x0) xs"
    by (rule sort_key_stable)
  also have "\<dots> = filter (\<lambda>x. round_2 (snd x) = k) xs"
    by (rule filter_cong) (simp_all add: P)
  finally show ?thesis .
next
  case False
  then show ?thesis by (simp add: filter_empty_conv)
qed

lemma sorted_desc_rounded:
  fixes xs :: "('a \<times> rat) list"
  shows "sorted_wrt (\<lambda>a b. round_2 (snd b) \<le> round_2 (snd a)) (sort_key (\<lambda>item. - snd item) xs)"
proof -
  have "sorted (map (\<lambda>item. - snd item) (sort_key (\<lambda>item. - snd item) xs))"
    by (rule sorted_sort_key)
  then have "sorted_wrt (\<lambda>a b. - snd a \<le> - snd b) (sort_key (\<lambda>item. - snd item) xs)"
    by (simp add: sorted_wrt_map)
  then show ?thesis
    by (rule sorted_wrt_mono_rel[rotated]) (simp add: round_2_mono)
qed

text \<open>
  Claim C1. For every list of found skills, \<open>suggest_role_matches\<close> returns one match per
  role of the catalog; each score is the weighted ratio formula of the specification, rounded
  to two decimals, and lies between 0 and 100; the result is in descending order of score, and
  the roles sharing a score appear in the order of the catalog.
\<close>

theorem suggest_role_matches_correct:
  "length (suggest_role_matches skills) = length JOB_ROLES \<and>
   distinct (map role (suggest_role_matches skills)) \<and>
   mset (map role (suggest_role_matches skills)) = mset (map fst JOB_ROLES) \<and>
   (\<forall>m \<in> set (suggest_role_matches skills).
      \<exists>reqs. map_of JOB_ROLES (role m) = Some reqs \<and>
        score m = spec_score (skill_names skills) (set (required_skills reqs)) (set (good_to_have reqs)) \<and>
        0 \<le> score m \<and> score m \<le> 100) \<and>
   sorted_wrt (\<lambda>a b. score b \<le> score a) (suggest_role_matches skills) \<and>
   (\<forall>k. map role (filter (\<lambda>m. score m = k) (suggest_role_matches skills)) =
        map fst (filter (\<lambda>(r, reqs).
           spec_score (skill_names skills) (set (required_skills reqs)) (set (good_to_have reqs)) = k) JOB_ROLES))"
proof -
  define F where "F = skill_names skills"
  define rs where "rs = map (\<lambda>(r, reqs). (r, role_score F reqs)) JOB_ROLES"
  define srt where "srt = sort_key (\<lambda>item. - snd item) rs"
  define g where "g = (\<lambda>(r :: string, sc). \<lparr>role = r, score = round_2 sc\<rparr>)"
  have res: "suggest_role_matches skills = map g srt"
    by (simp add: suggest_role_matches_def F_def rs_def srt_def g_def)
  have role_g: "role \<circ> g = fst" and score_g: "score \<circ> g = round_2 \<circ> snd"
    by (auto simp: g_def fun_eq_iff)
  have fst_rs: "map fst rs = map fst JOB_ROLES"
    by (simp add: rs_def case_prod_unfold o_def)
  have set_srt: "set srt = set rs" by (simp add: srt_def)
  have in_rs: "\<exists>reqs. (fst x, reqs) \<in> set JOB_ROLES \<and> snd x = role_score F reqs" if "x \<in> set rs" for x
    using that by (auto simp: rs_def)
  have c1: "length (suggest_role_matches skills) = length JOB_ROLES"
    by (simp add: res srt_def rs_def)
  have "mset (map fst srt) = mset (map fst rs)"
    by (simp add: srt_def)
  then have c2: "mset (map role (suggest_role_matches skills)) = mset (map fst JOB_ROLES)"
    by (simp add: res role_g fst_rs)
  have c3: "\<exists>reqs. map_of JOB_ROLES (role m) = Some reqs \<and>
        score m = spec_score F (set (required_skills reqs)) (set (good_to_have reqs)) \<and>
        0 \<le> score m \<and> score m \<le> 100" if "m \<in> set (suggest_role_matches skills)" for m
  proof -
    from that obtain x where x: "x \<in> set rs" "m = g x" by (auto simp: res set_srt)
    from in_rs[OF x(1)] obtain reqs where reqs: "(fst x, reqs) \<in> set JOB_ROLES" "snd x = role_score F reqs"
      by blast
    have m: "role m = fst x" "score m = round_2 (role_score F reqs)"
      using x(2) reqs(2) by (simp_all add: g_def case_prod_unfold)
    have "map_of JOB_ROLES (role m) = Some reqs"
      using reqs(1) JOB_ROLES_keys by (simp add: m)
    moreover have "score m = spec_score F (set (required_skills reqs)) (set (good_to_have reqs))"
      using role_score_spec[OF reqs(1)] by (simp add: m)
    moreover have "0 \<le> score m \<and> score m \<le> 100"
      unfolding m using role_score_range[of F reqs] round_2_range by blast
    ultimately show ?thesis by blast
  qed
  have c4: "sorted_wrt (\<lambda>a b. score b \<le> score a) (suggest_role_matches skills)"
    using sorted_desc_rounded[of rs]
    by (simp add: res sorted_wrt_map srt_def g_def case_prod_unfold)
  have inj: "snd x = snd y" if "x \<in> set rs" "y \<in> set rs" "round_2 (snd x) = round_2 (snd y)" for x y
  proof -
    from in_rs[OF that(1)] obtain reqs where a: "(fst x, reqs) \<in> set JOB_ROLES" "snd x = role_score F reqs" by blast
    from in_rs[OF that(2)] obtain reqs' where b: "(fst y, reqs') \<in> set JOB_ROLES" "snd y = role_score F reqs'" by blast
    show ?thesis using JOB_ROLES_round_inj[OF a(1) b(1), of F] that(3) a(2) b(2) by simp
  qed
  have c5: "map role (filter (\<lambda>m. score m = k) (suggest_role_matches skills)) =
        map fst (filter (\<lambda>(r, reqs).
           spec_score F (set (required_skills reqs)) (set (good_to_have reqs)) = k) JOB_ROLES)" for k
  proof -
    have "map role (filter (\<lambda>m. score m = k) (suggest_role_matches skills))
        = map fst (filter (\<lambda>x. round_2 (snd x) = k) srt)"
      by (simp add: res filter_map o_def g_def case_prod_unfold)
    also have "\<dots> = map fst (filter (\<lambda>x. round_2 (snd x) = k) rs)"
      unfolding srt_def using stable_rounded[of rs k] inj by simp
    also have "\<dots> = map fst (filter (\<lambda>(r, reqs). round_2 (role_score F reqs) = k) JOB_ROLES)"
      by (simp add: rs_def filter_map o_def case_prod_unfold)
    also have "filter (\<lambda>(r, reqs). round_2 (role_score F reqs) = k) JOB_ROLES
        = filter (\<lambda>(r, reqs). spec_score F (set (required_skills reqs)) (set (good_to_have reqs)) = k) JOB_ROLES"
      by (rule filter_cong) (auto simp: role_score_spec)
    finally show ?thesis .
  qed
  have c2': "distinct (map role (suggest_role_matches skills))"
    using mset_eq_imp_distinct_iff[OF c2] JOB_ROLES_keys by simp
  show ?thesis
    using c1 c2' c2 c3 c4 c5 unfolding F_def by blast
qed


theorem suggest_role_matches_correct_witness:
  "\<lparr>role = ''Data Scientist'', score = 1167 / 100\<rparr>
     \<in> set (suggest_role_matches [\<lparr>name = ''Python'', category = ''Programming Languages''\<rparr>]) \<and>
   (\<exists>reqs. map_of JOB_ROLES ''Data Scientist'' = Some reqs \<and>
      (1167 / 100 :: rat) =
        spec_score (skill_names [\<lparr>name = ''Python'', category = ''Programming Languages''\<rparr>])
          (set (required_skills reqs)) (set (good_to_have reqs))) \<and>
   map role (filter (\<lambda>m. score m = 1167 / 100)
      (suggest_role_matches [\<lparr>name = ''Python'', category = ''Programming Languages''\<rparr>])) =
     [''Software Engineer'', ''Data Scientist'']"
proof -
  let ?skills = "[\<lparr>name = ''Python'', category = ''Programming Languages''\<rparr>]"
  let ?m = "\<lparr>role = ''Data Scientist'', score = 1167 / 100\<rparr>"
  have ev: "suggest_role_matches ?skills =
     [\<lparr>role = ''Software Engineer'', score = 1167 / 100\<rparr>, ?m,
      \<lparr>role = ''Backend Developer'', score = 778 / 100\<rparr>,
      \<lparr>role = ''DevOps Engineer'', score = 429 / 100\<rparr>,
      \<lparr>role = ''Frontend Developer'', score = 0\<rparr>]"
    by code_simp
  have mem: "?m \<in> set (suggest_role_matches ?skills)"
    unfolding ev by simp
  have all: "\<forall>m \<in> set (suggest_role_matches ?skills).
      \<exists>reqs. map_of JOB_ROLES (role m) = Some reqs \<and>
        score m = spec_score (skill_names ?skills) (set (required_skills reqs)) (set (good_to_have reqs)) \<and>
        0 \<le> score m \<and> score m \<le> 100"
    using suggest_role_matches_correct[of ?skills] by blast
  from bspec[OF all mem]
  have "\<exists>reqs. map_of JOB_ROLES ''Data Scientist'' = Some reqs \<and>
      (1167 / 100 :: rat) = spec_score (skill_names ?skills) (set (required_skills reqs)) (set (good_to_have reqs))"
    by auto
  moreover have "map role (filter (\<lambda>m. score m = 1167 / 100) (suggest_role_matches ?skills)) =
     [''Software Engineer'', ''Data Scientist'']"
    unfolding ev by simp
  ultimately show ?thesis using mem by blast
qed

subsection \<open>Skill extractor\<close>

lemma skills_loop_pairs:
  "skills_loop t c ks st = pairs_loop t (map (Pair c) ks) st"
proof (induction ks arbitrary: st)
  case Nil
  then show ?case by simp
next
  case (Cons k ks)
  then show ?case by (cases st) (simp add: Let_def)
qed

lemma pairs_loop_append:
  "pairs_loop t (xs @ ys) st = pairs_loop t ys (pairs_loop t xs st)"
proof (induction xs arbitrary: st)
  case Nil
  then show ?case by simp
next
  case (Cons x xs)
  then show ?case by (cases x; cases st) (simp add: Let_def)
qed

lemma categories_loop_pairs:
  "categories_loop t catalog st = pairs_loop t (flat_catalog catalog) st"
proof (induction catalog arbitrary: st)
  case Nil
  then show ?case by (simp add: flat_catalog_def)
next
  case (Cons x catalog)
  obtain c ks where x: "x = (c, ks)" by (cases x)
  have "flat_catalog (x # catalog) = map (Pair c) ks @ flat_catalog catalog"
    by (simp add: flat_catalog_def x)
  with Cons show ?case
    by (simp add: x skills_loop_pairs pairs_loop_append)
qed

lemma pairs_loop_inv:
  assumes "fn = (\<lambda>s. lower (name s)) ` set sf"
  shows "\<exists>new. pairs_loop t ps (sf, fn) = (sf @ new, fn \<union> (\<lambda>s. lower (name s)) ` set new) \<and>
           distinct (map (\<lambda>s. lower (name s)) new) \<and>
           (\<forall>s \<in> set new.
              lower (name s) \<notin> fn \<and>
              re_search False (skill_pattern (lower (name s))) t \<noteq> None \<and>
              find (\<lambda>(c, k). lower k = lower (name s)) ps = Some (category s, name s))"
  using assms
proof (induction ps arbitrary: sf fn)
  case Nil
  show ?case by (rule exI[of _ "[]"]) simp
next
  case (Cons p ps)
  obtain c k where p: "p = (c, k)" by (cases p)
  let ?ln = "\<lambda>s. lower (name s)"
  let ?m = "\<lambda>n. re_search False (skill_pattern n) t \<noteq> None"
  consider (seen) "lower k \<in> fn"
    | (hit) "lower k \<notin> fn" "?m (lower k)"
    | (miss) "lower k \<notin> fn" "\<not> ?m (lower k)" by blast
  then show ?case
  proof cases
    case seen
    from Cons.IH[OF Cons.prems] obtain new where new:
      "pairs_loop t ps (sf, fn) = (sf @ new, fn \<union> ?ln ` set new)"
      "distinct (map ?ln new)"
      "\<forall>s \<in> set new. ?ln s \<notin> fn \<and> ?m (?ln s) \<and>
          find (\<lambda>(c, k). lower k = ?ln s) ps = Some (category s, name s)"
      by blast
    have "find (\<lambda>(c, k). lower k = ?ln s) (p # ps) = Some (category s, name s)"
      if "s \<in> set new" for s
      using new(3) that seen by (auto simp: p)
    with new seen show ?thesis
      by (intro exI[of _ new]) (simp add: p Let_def)
  next
    case hit
    let ?sk = "\<lparr>name = k, category = c\<rparr>"
    have inv: "insert (lower k) fn = ?ln ` set (sf @ [?sk])"
      using Cons.prems by simp
    from Cons.IH[OF inv] obtain new where new:
      "pairs_loop t ps (sf @ [?sk], insert (lower k) fn) =
         ((sf @ [?sk]) @ new, insert (lower k) fn \<union> ?ln ` set new)"
      "distinct (map ?ln new)"
      "\<forall>s \<in> set new. ?ln s \<notin> insert (lower k) fn \<and> ?m (?ln s) \<and>
          find (\<lambda>(c, k). lower k = ?ln s) ps = Some (category s, name s)"
      by blast
    have a: "pairs_loop t (p # ps) (sf, fn) = (sf @ (?sk # new), fn \<union> ?ln ` set (?sk # new))"
      using hit new(1) by (simp add: p Let_def)
    have b: "distinct (map ?ln (?sk # new))"
      using new(2,3) by auto
    have c: "?ln s \<notin> fn \<and> ?m (?ln s) \<and>
          find (\<lambda>(c, k). lower k = ?ln s) (p # ps) = Some (category s, name s)"
      if "s \<in> set (?sk # new)" for s
    proof (cases "s = ?sk")
      case True
      with hit show ?thesis by (simp add: p)
    next
      case False
      with that have "s \<in> set new" by simp
      with new(3) show ?thesis by (auto simp: p)
    qed
    from a b c show ?thesis by blast
  next
    case miss
    from Cons.IH[OF Cons.prems] obtain new where new:
      "pairs_loop t ps (sf, fn) = (sf @ new, fn \<union> ?ln ` set new)"
      "distinct (map ?ln new)"
      "\<forall>s \<in> set new. ?ln s \<notin> fn \<and> ?m (?ln s) \<and>
          find (\<lambda>(c, k). lower k = ?ln s) ps = Some (category s, name s)"
      by blast
    have "find (\<lambda>(c, k). lower k = ?ln s) (p # ps) = Some (category s, name s)"
      if "s \<in> set new" for s
      using new(3) that miss by (auto simp: p)
    with new miss show ?thesis
      by (intro exI[of _ new]) (simp add: p Let_def)
  qed
qed

text \<open>
  Claim C5. For every text, and for every catalog, the findings of the extractor have pairwise
  distinct lowercased names, and each finding carries the category and the spelling of the
  first catalog entry, in the order of the two loops, that has its lowercased name: a keyword
  listed under two categories is attributed to the first one only.
\<close>

theorem extract_skills_one_finding_per_name:
  "distinct (map (\<lambda>s. lower (name s)) (extract_skills text)) \<and>
   distinct (map (\<lambda>s. lower (name s)) (extract_skills_from catalog text)) \<and>
   (\<forall>s \<in> set (extract_skills_from catalog text).
      find (\<lambda>(cat, skill). lower skill = lower (name s)) (flat_catalog catalog) =
        Some (category s, name s))"
proof -
  have one: "distinct (map (\<lambda>s. lower (name s)) (extract_skills_from cat text)) \<and>
     (\<forall>s \<in> set (extract_skills_from cat text).
        find (\<lambda>(c, k). lower k = lower (name s)) (flat_catalog cat) = Some (category s, name s))"
    for cat
  proof -
    from pairs_loop_inv[of "{}" "[]" "lower text" "flat_catalog cat"]
    obtain new where new:
      "pairs_loop (lower text) (flat_catalog cat) ([], {}) = (new, (\<lambda>s. lower (name s)) ` set new)"
      "distinct (map (\<lambda>s. lower (name s)) new)"
      "\<forall>s \<in> set new. find (\<lambda>(c, k). lower k = lower (name s)) (flat_catalog cat) =
          Some (category s, name s)"
      by auto
    have "extract_skills_from cat text = new"
      by (simp add: extract_skills_from_def categories_loop_pairs new(1))
    with new(2,3) show ?thesis by simp
  qed
  from one[of SKILL_CATEGORIES] one[of catalog] show ?thesis
    by (simp add: extract_skills_def)
qed

theorem extract_skills_one_finding_per_name_witness:
  "\<lparr>name = ''Java'', category = ''Languages''\<rparr> \<in> set (extract_skills_from catalog2 ''Java, Go and Git'') \<and>
   find (\<lambda>(cat, skill). lower skill = lower ''Java'') (flat_catalog catalog2) =
     Some (''Languages'', ''Java'') \<and>
   extract_skills_from catalog2 ''Java, Go and Git'' =
     [\<lparr>name = ''go'', category = ''Languages''\<rparr>, \<lparr>name = ''Java'', category = ''Languages''\<rparr>,
      \<lparr>name = ''git'', category = ''Tools''\<rparr>]"
proof -
  have ev: "extract_skills_from catalog2 ''Java, Go and Git'' =
     [\<lparr>name = ''go'', category = ''Languages''\<rparr>, \<lparr>name = ''Java'', category = ''Languages''\<rparr>,
      \<lparr>name = ''git'', category = ''Tools''\<rparr>]"
    by code_simp
  have mem: "\<lparr>name = ''Java'', category = ''Languages''\<rparr> \<in> set (extract_skills_from catalog2 ''Java, Go and Git'')"
    unfolding ev by simp
  have all: "\<forall>s \<in> set (extract_skills_from catalog2 ''Java, Go and Git'').
      find (\<lambda>(cat, skill). lower skill = lower (name s)) (flat_catalog catalog2) =
        Some (category s, name s)"
    using extract_skills_one_finding_per_name[of "''Java, Go and Git''" catalog2] by blast
  from bspec[OF all mem] mem ev show ?thesis by simp
qed


subsection \<open>What the skill pattern detects\<close>

text \<open>
  The pattern of a keyword matches exactly where the keyword stands between two word
  boundaries, with an optional \<open>s\<close> before the second one. For a keyword that begins and
  ends with a word character this is the whole-word test: every such keyword of the catalog
  is detected in a text that has it as a whole word, in the singular or with a trailing
  \<open>s\<close>, and every finding is a catalog entry whose keyword occurs in the lowercased text.
\<close>

lemma seq_Cons: "seq (r # rs) = Seq r (seq rs)"
  by (simp add: seq_def)

lemma seq_Nil: "seq [] = Eps"
  by (simp add: seq_def)

lemma ends_lits:
  "ends False (seq (map Lit k)) s i =
     (if take (length k) (drop i s) = k then [i + length k] else [])"
proof (induction k arbitrary: i)
  case Nil
  then show ?case by (simp add: seq_Nil)
next
  case (Cons c k)
  show ?case
  proof (cases "i < length s")
    case True
    then have d: "drop i s = s ! i # drop (Suc i) s"
      by (simp add: Cons_nth_drop_Suc)
    show ?thesis
      using True Cons.IH[of "Suc i"] by (auto simp: seq_Cons d char_eq_def)
  next
    case False
    then show ?thesis by (simp add: seq_Cons)
  qed
qed

lemma re_search_skill_pattern:
  "(re_search False (skill_pattern k) s \<noteq> None) =
     (\<exists>i \<le> length s. word_boundary s i \<and> take (length k) (drop i s) = k \<and>
        (word_boundary s (i + length k) \<or>
         (i + length k < length s \<and> s ! (i + length k) = CHR ''s'' \<and>
          word_boundary s (Suc (i + length k)))))"
proof -
  have e: "ends False (skill_pattern k) s i \<noteq> [] \<longleftrightarrow>
      word_boundary s i \<and> take (length k) (drop i s) = k \<and>
        (word_boundary s (i + length k) \<or>
         (i + length k < length s \<and> s ! (i + length k) = CHR ''s'' \<and>
          word_boundary s (Suc (i + length k))))" for i
    by (auto simp: skill_pattern_def seq_Cons seq_Nil re_escape_def ends_lits char_eq_def)
  have "(re_search False (skill_pattern k) s \<noteq> None) =
      (\<exists>i < Suc (length s). ends False (skill_pattern k) s i \<noteq> [])"
    unfolding re_search_def by (simp add: find_None_iff del: upt_Suc)
  also have "\<dots> = (\<exists>i \<le> length s. ends False (skill_pattern k) s i \<noteq> [])"
    by (simp add: less_Suc_eq_le)
  finally show ?thesis unfolding e .
qed


lemma whole_word_matches:
  assumes k: "k \<noteq> []" "is_word (hd k)" "is_word (last k)"
    and s: "s = pre @ k @ post \<or> s = pre @ k @ ''s'' @ post"
    and pre: "pre = [] \<or> \<not> is_word (last pre)"
    and post: "post = [] \<or> \<not> is_word (hd post)"
  shows "re_search False (skill_pattern k) s \<noteq> None"
proof -
  let ?i = "length pre"
  from s obtain rest where rest: "s = pre @ k @ rest" "rest = post \<or> rest = ''s'' @ post"
    by auto
  have i: "?i \<le> length s" by (simp add: rest)
  have at: "take (length k) (drop ?i s) = k" by (simp add: rest)
  have hd_k: "s ! ?i = hd k"
    using k(1) by (simp add: rest nth_append hd_conv_nth)
  have b0: "word_boundary s ?i"
  proof -
    have "?i < length s" using k(1) by (simp add: rest)
    moreover have "is_word (s ! ?i)" using hd_k k(2) by simp
    moreover have "\<not> (0 < ?i \<and> is_word (s ! (?i - 1)))"
    proof (cases "pre = []")
      case True
      then show ?thesis by simp
    next
      case False
      then have "s ! (?i - 1) = last pre"
        by (simp add: rest nth_append last_conv_nth)
      with pre False show ?thesis by simp
    qed
    ultimately show ?thesis by (simp add: word_boundary_def)
  qed
  have last_k: "(pre @ k @ tl) ! (?i + length k - 1) = last k" for tl
  proof -
    from k(1) have idx: "?i + length k - 1 = ?i + (length k - 1)" and lt: "length k - 1 < length k"
      by (cases k; simp)+
    have "(pre @ k @ tl) ! (?i + (length k - 1)) = (k @ tl) ! (length k - 1)"
      by (rule nth_append_length_plus)
    also have "\<dots> = k ! (length k - 1)"
      using lt by (simp only: nth_append if_True)
    also have "\<dots> = last k"
      using last_conv_nth[OF k(1)] by simp
    finally show ?thesis unfolding idx .
  qed
  have b_after: "word_boundary (pre @ k @ post) (?i + length k)"
  proof -
    have "(pre @ k @ post) ! (?i + length k - 1) = last k"
      by (rule last_k)
    moreover have "\<not> (?i + length k < length (pre @ k @ post) \<and>
        is_word ((pre @ k @ post) ! (?i + length k)))"
    proof (cases "post = []")
      case True
      then show ?thesis by simp
    next
      case False
      then have "(pre @ k @ post) ! (?i + length k) = hd post"
        by (simp add: nth_append hd_conv_nth)
      with post False show ?thesis by simp
    qed
    ultimately show ?thesis using k(1,3) by (simp add: word_boundary_def)
  qed
  have b_after_s: "word_boundary (pre @ k @ ''s'' @ post) (Suc (?i + length k))"
  proof -
    have "(pre @ k @ ''s'' @ post) ! (?i + length k) = CHR ''s''"
      by (simp add: nth_append)
    moreover have "is_word CHR ''s''" by (simp add: is_word_def)
    moreover have "\<not> (Suc (?i + length k) < length (pre @ k @ ''s'' @ post) \<and>
        is_word ((pre @ k @ ''s'' @ post) ! Suc (?i + length k)))"
    proof (cases "post = []")
      case True
      then show ?thesis by simp
    next
      case False
      then have "(pre @ k @ ''s'' @ post) ! Suc (?i + length k) = hd post"
        by (simp add: nth_append hd_conv_nth)
      with post False show ?thesis by simp
    qed
    ultimately show ?thesis by (simp add: word_boundary_def)
  qed
  from rest(2) show ?thesis
  proof
    assume "rest = post"
    with b_after rest(1) have "word_boundary s (?i + length k)" by simp
    with i b0 at show ?thesis unfolding re_search_skill_pattern by blast
  next
    assume r: "rest = ''s'' @ post"
    with b_after_s rest(1) have "word_boundary s (Suc (?i + length k))" by simp
    moreover have "?i + length k < length s" "s ! (?i + length k) = CHR ''s''"
      using r by (simp_all add: rest(1) nth_append)
    ultimately show ?thesis using i b0 at unfolding re_search_skill_pattern by blast
  qed
qed

lemma match_is_substring:
  assumes "re_search False (skill_pattern k) s \<noteq> None"
  shows "\<exists>pre post. s = pre @ k @ post"
proof -
  from assms obtain i where "take (length k) (drop i s) = k"
    unfolding re_search_skill_pattern by blast
  then have "s = take i s @ k @ drop (length k) (drop i s)"
    by (metis append_take_drop_id)
  then show ?thesis by blast
qed

lemma pairs_loop_found:
  "fn \<subseteq> snd (pairs_loop t ps (sf, fn)) \<and>
   (\<forall>p \<in> set ps. re_search False (skill_pattern (lower (snd p))) t \<noteq> None \<longrightarrow>
      lower (snd p) \<in> snd (pairs_loop t ps (sf, fn)))"
proof (induction ps arbitrary: sf fn)
  case Nil
  then show ?case by simp
next
  case (Cons p ps)
  obtain c k where p: "p = (c, k)" by (cases p)
  let ?m = "re_search False (skill_pattern (lower k)) t \<noteq> None"
  consider (seen) "lower k \<in> fn"
    | (hit) "lower k \<notin> fn" "?m"
    | (miss) "lower k \<notin> fn" "\<not> ?m" by blast
  then show ?case
  proof cases
    case seen
    then have e: "pairs_loop t (p # ps) (sf, fn) = pairs_loop t ps (sf, fn)"
      by (simp add: p Let_def)
    from Cons.IH[of fn sf] seen show ?thesis
      unfolding e by (auto simp: p)
  next
    case hit
    then have e: "pairs_loop t (p # ps) (sf, fn) =
        pairs_loop t ps (sf @ [\<lparr>name = k, category = c\<rparr>], insert (lower k) fn)"
      by (simp add: p Let_def)
    from Cons.IH[of "insert (lower k) fn" "sf @ [\<lparr>name = k, category = c\<rparr>]"] show ?thesis
      unfolding e by (auto simp: p)
  next
    case miss
    then have e: "pairs_loop t (p # ps) (sf, fn) = pairs_loop t ps (sf, fn)"
      by (simp add: p Let_def)
    from Cons.IH[of fn sf] miss show ?thesis
      unfolding e by (auto simp: p)
  qed
qed

lemma extract_skills_detects:
  assumes "(c, k) \<in> set (flat_catalog catalog)"
    and "re_search False (skill_pattern (lower k)) (lower text) \<noteq> None"
  shows "\<exists>s \<in> set (extract_skills_from catalog text). lower (name s) = lower k"
proof -
  from pairs_loop_inv[of "{}" "[]" "lower text" "flat_catalog catalog"]
  obtain new where new:
    "pairs_loop (lower text) (flat_catalog catalog) ([], {}) =
       (new, (\<lambda>s. lower (name s)) ` set new)"
    by auto
  have r: "extract_skills_from catalog text = new"
    by (simp add: extract_skills_from_def categories_loop_pairs new)
  from pairs_loop_found[of "{}" "lower text" "flat_catalog catalog" "[]"] assms
  have "lower k \<in> snd (pairs_loop (lower text) (flat_catalog catalog) ([], {}))"
    by force
  then show ?thesis
    by (auto simp: new r)
qed

lemma extract_skills_finding_matches:
  assumes "s \<in> set (extract_skills_from catalog text)"
  shows "(category s, name s) \<in> set (flat_catalog catalog) \<and>
         (\<exists>pre post. lower text = pre @ lower (name s) @ post)"
proof -
  from pairs_loop_inv[of "{}" "[]" "lower text" "flat_catalog catalog"]
  obtain new where new:
    "pairs_loop (lower text) (flat_catalog catalog) ([], {}) =
       (new, (\<lambda>s. lower (name s)) ` set new)"
    "\<forall>s \<in> set new. re_search False (skill_pattern (lower (name s))) (lower text) \<noteq> None \<and>
        find (\<lambda>(c, k). lower k = lower (name s)) (flat_catalog catalog) =
          Some (category s, name s)"
    by auto
  have r: "extract_skills_from catalog text = new"
    by (simp add: extract_skills_from_def categories_loop_pairs new(1))
  with assms new(2) have m: "re_search False (skill_pattern (lower (name s))) (lower text) \<noteq> None"
    and f: "find (\<lambda>(c, k). lower k = lower (name s)) (flat_catalog catalog) =
          Some (category s, name s)"
    by auto
  from f obtain i where "i < length (flat_catalog catalog)"
    "(category s, name s) = flat_catalog catalog ! i"
    unfolding find_Some_iff by blast
  then have "(category s, name s) \<in> set (flat_catalog catalog)"
    by (metis nth_mem)
  with match_is_substring[OF m] show ?thesis by blast
qed

lemma SKILL_CATEGORIES_keywords:
  "list_all (\<lambda>(c, k). k \<in> {''c++'', ''c#'', ''.net''} \<or>
      (k \<noteq> [] \<and> is_word (hd k) \<and> is_word (last k)))
     (flat_catalog SKILL_CATEGORIES)"
  by code_simp

lemma SKILL_CATEGORIES_lower:
  "list_all (\<lambda>(c, k). lower k = k) (flat_catalog SKILL_CATEGORIES)"
  by code_simp

lemma SKILL_CATEGORIES_distinct:
  "distinct (map snd (flat_catalog SKILL_CATEGORIES))"
  by code_simp


lemma find_distinct_key:
  "distinct (map snd xs) \<Longrightarrow> (c, k) \<in> set xs \<Longrightarrow> find (\<lambda>p. snd p = k) xs = Some (c, k)"
proof (induction xs)
  case Nil
  then show ?case by simp
next
  case (Cons x xs)
  show ?case
  proof (cases "x = (c, k)")
    case True
    then show ?thesis by simp
  next
    case False
    with Cons.prems have in_xs: "(c, k) \<in> set xs" by simp
    then have "k \<in> snd ` set xs" by force
    with Cons.prems have "snd x \<noteq> k" by auto
    with Cons in_xs show ?thesis by simp
  qed
qed

lemma extract_skills_detects_keyword:
  assumes mem: "(c, k) \<in> set (flat_catalog SKILL_CATEGORIES)"
    and other: "k \<notin> {''c++'', ''c#'', ''.net''}"
    and occ: "lower text = pre @ k @ post \<or> lower text = pre @ k @ ''s'' @ post"
    and pre: "pre = [] \<or> \<not> is_word (last pre)"
    and post: "post = [] \<or> \<not> is_word (hd post)"
  shows "\<lparr>name = k, category = c\<rparr> \<in> set (extract_skills text)"
proof -
  from SKILL_CATEGORIES_keywords mem other
  have k: "k \<noteq> []" "is_word (hd k)" "is_word (last k)"
    unfolding list_all_iff by fast+
  have low: "lower k' = k'" if "(c', k') \<in> set (flat_catalog SKILL_CATEGORIES)" for c' k'
    using SKILL_CATEGORIES_lower that unfolding list_all_iff by fast
  have "re_search False (skill_pattern (lower k)) (lower text) \<noteq> None"
    unfolding low[OF mem] by (rule whole_word_matches[OF k occ pre post])
  from extract_skills_detects[OF mem this]
  obtain s where s: "s \<in> set (extract_skills text)" "lower (name s) = k"
    by (auto simp: extract_skills_def low[OF mem])
  from pairs_loop_inv[of "{}" "[]" "lower text" "flat_catalog SKILL_CATEGORIES"]
  obtain new where new:
    "pairs_loop (lower text) (flat_catalog SKILL_CATEGORIES) ([], {}) =
       (new, (\<lambda>s. lower (name s)) ` set new)"
    "\<forall>s \<in> set new.
        find (\<lambda>(c, k). lower k = lower (name s)) (flat_catalog SKILL_CATEGORIES) =
          Some (category s, name s)"
    by auto
  have "extract_skills text = new"
    by (simp add: extract_skills_def extract_skills_from_def categories_loop_pairs new(1))
  with s new(2)
  have "find (\<lambda>(c, k'). lower k' = k) (flat_catalog SKILL_CATEGORIES) = Some (category s, name s)"
    by auto
  moreover have "find (\<lambda>(c, k'). lower k' = k) (flat_catalog SKILL_CATEGORIES) =
      find (\<lambda>p. snd p = k) (flat_catalog SKILL_CATEGORIES)"
    by (rule find_cong) (auto simp: low)
  moreover have "find (\<lambda>p. snd p = k) (flat_catalog SKILL_CATEGORIES) = Some (c, k)"
    by (rule find_distinct_key[OF SKILL_CATEGORIES_distinct mem])
  ultimately have "category s = c" "name s = k" by simp_all
  then have "s = \<lparr>name = k, category = c\<rparr>" by simp
  with s(1) show ?thesis by simp
qed


text \<open>
  Claim C2 fails on the keywords that begin or end with a character that is not a word
  character. The pattern closes with \<open>\b\<close>, which after the \<open>+\<close> of \<open>c++\<close> asks for a
  word character to follow, and opens with \<open>\b\<close>, which before the dot of \<open>.net\<close> asks for
  a word character to precede: a text that consists of exactly the keyword has no finding.
\<close>

theorem extract_skills_misses_keyword:
  "extract_skills ''c++'' = [] \<and> extract_skills ''.net'' = []"
  by code_simp

subsection \<open>Experience analyzer\<close>

lemma set_list_of_set: "set (list_of_set h xs) = set xs"
  by (simp add: list_of_set_def)

lemma replace_newline_free: "newline \<notin> set (replace_newline d)"
  by (auto simp: replace_newline_def newline_def)

lemma distinct_list_of_set: "distinct (list_of_set h xs)"
  by (simp add: list_of_set_def)

lemma kept_dates:
  "length (take 10 (sort_key (\<lambda>d. - int (length d)) (list_of_set h (map replace_newline xs)))) \<le> 10 \<and>
   distinct (take 10 (sort_key (\<lambda>d. - int (length d)) (list_of_set h (map replace_newline xs)))) \<and>
   sorted_wrt (\<lambda>a b. length b \<le> length a)
     (take 10 (sort_key (\<lambda>d. - int (length d)) (list_of_set h (map replace_newline xs)))) \<and>
   (\<forall>d \<in> set (take 10 (sort_key (\<lambda>d. - int (length d)) (list_of_set h (map replace_newline xs)))).
      newline \<notin> set d \<and>
      (\<forall>d' \<in> set (drop 10 (sort_key (\<lambda>d. - int (length d))
                           (list_of_set h (map replace_newline xs)))).
         length d' \<le> length d))"
proof -
  let ?ys = "list_of_set h (map replace_newline xs)"
  let ?s = "sort_key (\<lambda>d. - int (length d)) ?ys"
  have "sorted (map (\<lambda>d. - int (length d)) ?s)" by (rule sorted_sort_key)
  then have "sorted_wrt (\<lambda>a b. length b \<le> length a) ?s"
    by (simp add: sorted_wrt_map)
  then have all: "sorted_wrt (\<lambda>a b. length b \<le> length a) (take 10 ?s @ drop 10 ?s)"
    by simp
  then have s: "sorted_wrt (\<lambda>a b. length b \<le> length a) (take 10 ?s)"
    and l: "\<forall>d \<in> set (take 10 ?s). \<forall>d' \<in> set (drop 10 ?s). length d' \<le> length d"
    unfolding sorted_wrt_append by blast+
  have d: "distinct (take 10 ?s)"
    by (simp add: distinct_list_of_set)
  have "set (take 10 ?s) \<subseteq> replace_newline ` set xs"
    using set_take_subset[of 10 ?s] by (simp add: set_list_of_set)
  then have n: "\<forall>d \<in> set (take 10 ?s). newline \<notin> set d"
    using replace_newline_free by blast
  from s d n l show ?thesis by simp
qed

lemma analyze_experience_set:
  assumes "nlp_model text = Inr ents"
    and "filter (\<lambda>e. label e = ''DATE'') ents \<noteq> []"
  shows "set (analyze_experience h text nlp_model) =
     set (concat (map (\<lambda>pattern.
            map (\<lambda>(i, j). ''Mention of: '' @ slice text i j) (re_finditer True pattern text))
            year_patterns)) \<union>
     {''Key Dates Found:''} \<union>
     set (take 10 (sort_key (\<lambda>d. - int (length d))
            (list_of_set h (map (\<lambda>e. replace_newline (ent_text e))
               (filter (\<lambda>e. label e = ''DATE'') ents)))))"
  using assms by (simp add: analyze_experience_def Let_def set_list_of_set Un_commute Un_left_commute)

text \<open>
  Claim C8 fails on the order. The dates are sorted by length, longest first, and put after
  the marker, but the function returns \<open>list(set(experience_matches))\<close>, whose order is that
  of the set. For a text with the two date entities \<open>January 2020\<close> and \<open>2021\<close>, under a set
  order that lists shorter strings first, the result has the shorter date before the longer
  one and the marker last.
\<close>

theorem analyze_experience_order_lost:
  "analyze_experience length ''Worked from January 2020 to 2021''
     (\<lambda>t. Inr [\<lparr>ent_text = ''January 2020'', label = ''DATE''\<rparr>,
               \<lparr>ent_text = ''2021'', label = ''DATE''\<rparr>]) =
     [''2021'', ''January 2020'', ''Key Dates Found:'']"
  by code_simp

subsection \<open>Target-role analysis\<close>

lemma filter_key_map_of:
  "distinct (map fst xs) \<Longrightarrow> map_of xs k = Some v \<Longrightarrow> filter (\<lambda>p. fst p = k) xs = [(k, v)]"
proof (induction xs)
  case Nil
  then show ?case by simp
next
  case (Cons x xs)
  show ?case
  proof (cases "fst x = k")
    case True
    with Cons.prems have "k \<notin> fst ` set xs" by simp
    then have "\<forall>p \<in> set xs. fst p \<noteq> k" by force
    then have "filter (\<lambda>p. fst p = k) xs = []" by (simp add: filter_empty_conv)
    with True Cons.prems show ?thesis by (cases x) auto
  next
    case False
    with Cons show ?thesis by (cases x) auto
  qed
qed

lemma role_score_target:
  assumes "(r, reqs) \<in> set JOB_ROLES"
  shows "role_score F reqs =
     weighted_score (card (F \<inter> set (required_skills reqs))) (card (set (required_skills reqs)))
                 (card (F \<inter> set (good_to_have reqs))) (card (set (good_to_have reqs)))"
  using JOB_ROLES_distinct[OF assms] by (simp add: role_score_weighted distinct_card)

text \<open>
  Claim C3, as stated, fails: for the single found skill Python and the target role
  Software Engineer, \<open>analyze_target_role\<close> returns the score \<open>35/3\<close>, while
  \<open>suggest_role_matches\<close> gives that role \<open>11.67\<close>: only the latter rounds.
\<close>

theorem analyze_target_role_counterexample:
  "map_option target_score
     (analyze_target_role [\<lparr>name = ''Python'', category = ''Programming Languages''\<rparr>]
        ''Software Engineer'') = Some (35 / 3) \<and>
   suggest_role_matches [\<lparr>name = ''Python'', category = ''Programming Languages''\<rparr>] =
     [\<lparr>role = ''Software Engineer'', score = 1167 / 100\<rparr>,
      \<lparr>role = ''Data Scientist'', score = 1167 / 100\<rparr>,
      \<lparr>role = ''Backend Developer'', score = 778 / 100\<rparr>,
      \<lparr>role = ''DevOps Engineer'', score = 429 / 100\<rparr>,
      \<lparr>role = ''Frontend Developer'', score = 0\<rparr>] \<and>
   (35 / 3 :: rat) \<noteq> 1167 / 100"
  by code_simp

text \<open>
  Claim C3, amended. \<open>analyze_target_role\<close> returns nothing exactly when the target role is
  not in the catalog. When the role is present, the score it returns is the value of the
  formula of the specification before rounding, \<open>suggest_role_matches\<close> has exactly one match
  for that role, and the score of that match is the score of the analysis rounded to two
  decimals; the four
  breakdowns are the sorted, duplicate-free lists of the found and missing required and
  good-to-have skills.
\<close>

theorem analyze_target_role_correct:
  "(analyze_target_role skills target_role = None \<longleftrightarrow> target_role \<notin> fst ` set JOB_ROLES) \<and>
   (\<forall>a. analyze_target_role skills target_role = Some a \<longrightarrow>
      target a = target_role \<and>
      map score (filter (\<lambda>m. role m = target_role) (suggest_role_matches skills)) =
        [round_2 (target_score a)] \<and>
      (\<exists>reqs. map_of JOB_ROLES target_role = Some reqs \<and>
         target_score a = raw_score (skill_names skills) (set (required_skills reqs)) (set (good_to_have reqs)) \<and>
         sorted (required_found a) \<and> distinct (required_found a) \<and>
         set (required_found a) = skill_names skills \<inter> set (required_skills reqs) \<and>
         sorted (required_missing a) \<and> distinct (required_missing a) \<and>
         set (required_missing a) = set (required_skills reqs) - skill_names skills \<and>
         sorted (good_to_have_found a) \<and> distinct (good_to_have_found a) \<and>
         set (good_to_have_found a) = skill_names skills \<inter> set (good_to_have reqs) \<and>
         sorted (good_to_have_missing a) \<and> distinct (good_to_have_missing a) \<and>
         set (good_to_have_missing a) = set (good_to_have reqs) - skill_names skills))"
proof -
  define F where "F = skill_names skills"
  have none: "(analyze_target_role skills target_role = None) = (target_role \<notin> fst ` set JOB_ROLES)"
  proof -
    have "(analyze_target_role skills target_role = None) = (map_of JOB_ROLES target_role = None)"
      by (simp add: analyze_target_role_def Let_def split: option.splits)
    then show ?thesis by (simp add: map_of_eq_None_iff)
  qed
  have some: "target a = target_role \<and>
      map score (filter (\<lambda>m. role m = target_role) (suggest_role_matches skills)) =
        [round_2 (target_score a)] \<and>
      (\<exists>reqs. map_of JOB_ROLES target_role = Some reqs \<and>
         target_score a = raw_score F (set (required_skills reqs)) (set (good_to_have reqs)) \<and>
         sorted (required_found a) \<and> distinct (required_found a) \<and>
         set (required_found a) = F \<inter> set (required_skills reqs) \<and>
         sorted (required_missing a) \<and> distinct (required_missing a) \<and>
         set (required_missing a) = set (required_skills reqs) - F \<and>
         sorted (good_to_have_found a) \<and> distinct (good_to_have_found a) \<and>
         set (good_to_have_found a) = F \<inter> set (good_to_have reqs) \<and>
         sorted (good_to_have_missing a) \<and> distinct (good_to_have_missing a) \<and>
         set (good_to_have_missing a) = set (good_to_have reqs) - F)"
    if a: "analyze_target_role skills target_role = Some a" for a
  proof -
    from a obtain reqs where reqs: "map_of JOB_ROLES target_role = Some reqs"
      by (auto simp: analyze_target_role_def split: option.splits)
    then have mem: "(target_role, reqs) \<in> set JOB_ROLES" by (rule map_of_SomeD)
    from a reqs have a_eq: "a = \<lparr>target = target_role,
        target_score = weighted_score (card (F \<inter> set (required_skills reqs))) (card (set (required_skills reqs)))
                 (card (F \<inter> set (good_to_have reqs))) (card (set (good_to_have reqs))),
        required_found = sorted_list_of_set (F \<inter> set (required_skills reqs)),
        required_missing = sorted_list_of_set (set (required_skills reqs) - F),
        good_to_have_found = sorted_list_of_set (F \<inter> set (good_to_have reqs)),
        good_to_have_missing = sorted_list_of_set (set (good_to_have reqs) - F)\<rparr>"
      by (simp add: analyze_target_role_def Let_def F_def weighted_score_def)
    have ts: "target_score a = role_score F reqs"
      by (simp add: a_eq role_score_target[OF mem])
    define rs where "rs = map (\<lambda>(r, reqs). (r, role_score F reqs)) JOB_ROLES"
    have "filter (\<lambda>m. role m = target_role) (suggest_role_matches skills)
        = map (\<lambda>(r, sc). \<lparr>role = r, score = round_2 sc\<rparr>)
            (sort_key (\<lambda>item. - snd item) (filter (\<lambda>x. fst x = target_role) rs))"
      by (simp add: suggest_role_matches_def F_def rs_def filter_map o_def case_prod_unfold filter_sort)
    also have "filter (\<lambda>x. fst x = target_role) rs =
        map (\<lambda>(r, reqs). (r, role_score F reqs)) (filter (\<lambda>p. fst p = target_role) JOB_ROLES)"
      by (simp add: rs_def filter_map o_def case_prod_unfold)
    also have "filter (\<lambda>p. fst p = target_role) JOB_ROLES = [(target_role, reqs)]"
      by (rule filter_key_map_of[OF JOB_ROLES_keys reqs])
    finally have sc: "map score (filter (\<lambda>m. role m = target_role) (suggest_role_matches skills)) =
        [round_2 (target_score a)]"
      by (simp add: ts)
    have fin: "finite (F \<inter> set xs)" "finite (set xs - F)" for xs :: "string list"
      by simp_all
    have raw: "target_score a = raw_score F (set (required_skills reqs)) (set (good_to_have reqs))"
      by (simp add: a_eq weighted_score_def raw_score_def ratio_def card_gt_0_iff mult.commute)
    show ?thesis
      using sc reqs fin raw by (auto simp: a_eq)
  qed
  show ?thesis
    using none some unfolding F_def by blast
qed

theorem analyze_target_role_correct_witness:
  "\<exists>a. analyze_target_role [\<lparr>name = ''Python'', category = ''Programming Languages''\<rparr>]
          ''Software Engineer'' = Some a \<and>
       target a = ''Software Engineer'' \<and>
       map score (filter (\<lambda>m. role m = ''Software Engineer'')
          (suggest_role_matches [\<lparr>name = ''Python'', category = ''Programming Languages''\<rparr>])) =
         [round_2 (target_score a)] \<and>
       (\<exists>reqs. map_of JOB_ROLES ''Software Engineer'' = Some reqs \<and>
          target_score a =
            raw_score (skill_names [\<lparr>name = ''Python'', category = ''Programming Languages''\<rparr>])
              (set (required_skills reqs)) (set (good_to_have reqs)))"
proof -
  let ?skills = "[\<lparr>name = ''Python'', category = ''Programming Languages''\<rparr>]"
  have "''Software Engineer'' \<in> fst ` set JOB_ROLES"
    by (simp add: JOB_ROLES_def)
  with analyze_target_role_correct[of ?skills "''Software Engineer''"]
  obtain a where a: "analyze_target_role ?skills ''Software Engineer'' = Some a"
    by (cases "analyze_target_role ?skills ''Software Engineer''") auto
  with analyze_target_role_correct[of ?skills "''Software Engineer''"] show ?thesis
    by blast
qed

subsection \<open>Feedback generator\<close>



text \<open>
  The only exception the generator can raise comes from the prompt: indexing an empty list of
  experience keywords. The gap data the orchestrator builds never has one.
\<close>

lemma JOB_ROLES_experience_keywords:
  "list_all (\<lambda>(r, reqs). experience_keywords reqs \<noteq> []) JOB_ROLES"
  by (simp add: JOB_ROLES_def)

lemma prompt_template_ok:
  "d_experience_keywords d \<noteq> Some [] \<Longrightarrow> \<exists>p. prompt_template d = Inr p"
  by (cases "d_experience_keywords d")
     (auto simp: prompt_template_def split: list.splits)

lemma orchestrator_prompt_built:
  "\<exists>p. prompt_template
         (feedback_data_of skills target_role (analyze_target_role skills target_role)) = Inr p"
proof (cases "map_of JOB_ROLES target_role")
  case None
  then have "analyze_target_role skills target_role = None"
    by (simp add: analyze_target_role_def)
  then show ?thesis
    by (intro prompt_template_ok) (simp add: feedback_data_of_def empty_data_def)
next
  case (Some reqs)
  then have "(target_role, reqs) \<in> set JOB_ROLES" by (rule map_of_SomeD)
  with JOB_ROLES_experience_keywords have "experience_keywords reqs \<noteq> []"
    unfolding list_all_iff by fast
  with Some show ?thesis
    by (intro prompt_template_ok)
       (simp add: feedback_data_of_def analyze_target_role_def Let_def)
qed



text \<open>
  Claim C7. When the credential is unset, empty or the placeholder, the generator returns the
  fixed message and leaves the world as it is: no call to the generation service is made.
\<close>

theorem feedback_not_configured:
  assumes "GEMINI_API_KEY env = None \<or> GEMINI_API_KEY env = Some [] \<or>
           GEMINI_API_KEY env = Some ''YOUR_GEMINI_API_KEY_GOES_HERE''"
  shows "get_personalized_feedback env analysis_data w =
           (Inr ''Error: AI feedback service is not configured.'', w)"
  using assms by (auto simp: get_personalized_feedback_def)

theorem feedback_not_configured_witness:
  "get_personalized_feedback
     (env0\<lparr>GEMINI_API_KEY := Some ''YOUR_GEMINI_API_KEY_GOES_HERE''\<rparr>) empty_data w0 =
     (Inr ''Error: AI feedback service is not configured.'', w0) \<and>
   calls w0 = []"
  using feedback_not_configured
          [of "env0\<lparr>GEMINI_API_KEY := Some ''YOUR_GEMINI_API_KEY_GOES_HERE''\<rparr>" empty_data w0]
  by (simp add: w0_def)

subsection \<open>Orchestrator and text extraction\<close>

lemma strip_empty_iff: "strip s = [] \<longleftrightarrow> (\<forall>c \<in> set s. is_space c)"
proof
  assume "strip s = []"
  then have "\<forall>c \<in> set (dropWhile is_space s). is_space c"
    by (simp add: strip_def dropWhile_eq_Nil_conv)
  then have "dropWhile is_space s = []"
    using hd_dropWhile[of is_space s] hd_in_set[of "dropWhile is_space s"] by blast
  then show "\<forall>c \<in> set s. is_space c"
    by (simp add: dropWhile_eq_Nil_conv)
next
  assume "\<forall>c \<in> set s. is_space c"
  then have d: "dropWhile is_space s = []"
    by (simp add: dropWhile_eq_Nil_conv)
  show "strip s = []"
    unfolding strip_def d by simp
qed

text \<open>
  Claim C6. When the text extracted from a supported file is empty or consists of whitespace
  only (every character of it is whitespace for \<open>str.strip\<close>, the no-break space and the
  next-line character included), the orchestrator raises the empty-document error and the
  world is unchanged: no call to the generation service, no audit record.
\<close>

theorem empty_text_rejected:
  assumes "endswith filename ''.pdf'' \<or> endswith filename ''.docx''"
    and "\<forall>c \<in> set (extracted_text fs filename). is_space c"
  shows "analyze_resume_file env fs filename target_role nlp_model w =
     (Inl (ValueError
        ''Could not extract text from the document. It might be empty or image-based.''), w)"
proof -
  from assms(2) have "strip (extracted_text fs filename) = []"
    by (simp only: strip_empty_iff)
  with assms(1) show ?thesis
    by (auto simp: analyze_resume_file_def extracted_text_def)
qed

theorem empty_text_rejected_witness:
  "extract_text_from_docx
     \<lparr>PdfReader = Inl (Exception ''not a PDF''),
      Document = Inr [Inr [CHR 0xA0, CHR '' ''], Inr [CHR 0x85, CHR 0x09]]\<rparr> =
     [CHR 0xA0, CHR '' '', CHR 0x0A, CHR 0x85, CHR 0x09, CHR 0x0A] \<and>
   analyze_resume_file env0
     \<lparr>PdfReader = Inl (Exception ''not a PDF''),
      Document = Inr [Inr [CHR 0xA0, CHR '' ''], Inr [CHR 0x85, CHR 0x09]]\<rparr>
     ''scan.docx'' ''Software Engineer'' (\<lambda>t. Inr []) w0 =
     (Inl (ValueError
        ''Could not extract text from the document. It might be empty or image-based.''), w0) \<and>
   logs w0 = []"
proof -
  let ?fs = "\<lparr>PdfReader = Inl (Exception ''not a PDF''),
              Document = Inr [Inr [CHR 0xA0, CHR '' ''], Inr [CHR 0x85, CHR 0x09]]\<rparr>"
  have a: "endswith ''scan.docx'' ''.pdf'' \<or> endswith ''scan.docx'' ''.docx''"
    by (simp add: endswith_def)
  have t: "extract_text_from_docx ?fs =
      [CHR 0xA0, CHR '' '', CHR 0x0A, CHR 0x85, CHR 0x09, CHR 0x0A]"
    by (simp add: extract_text_from_docx_def newline_def)
  have e: "extracted_text ?fs ''scan.docx'' = extract_text_from_docx ?fs"
    by (simp add: extracted_text_def endswith_def)
  have b: "\<forall>c \<in> set (extracted_text ?fs ''scan.docx''). is_space c"
    unfolding e t by (simp add: is_space_def)
  from empty_text_rejected[OF a b] t show ?thesis
    by (simp add: w0_def)
qed

text \<open>
  Claim C10. The dispatch looks only at the suffix of the file name, case-sensitively: for a
  name that ends neither in \<open>.pdf\<close> nor in \<open>.docx\<close>, such as \<open>resume.PDF\<close>, the orchestrator
  raises the unsupported-file-type error whatever the stream holds, and the world is
  unchanged.
\<close>

theorem unsupported_file_type:
  assumes "\<not> endswith filename ''.pdf''" and "\<not> endswith filename ''.docx''"
  shows "analyze_resume_file env fs filename target_role nlp_model w =
     (Inl (ValueError ''Unsupported file type''), w)"
  using assms by (simp add: analyze_resume_file_def)

theorem unsupported_file_type_witness:
  "\<not> endswith ''resume.PDF'' ''.pdf'' \<and> \<not> endswith ''resume.PDF'' ''.docx'' \<and>
   analyze_resume_file env0
       \<lparr>PdfReader = Inr [Inr (Some ''Python'')], Document = Inr [Inr ''Python'']\<rparr>
       ''resume.PDF'' ''Software Engineer'' (\<lambda>t. Inr []) w0 =
     (Inl (ValueError ''Unsupported file type''), w0)"
proof -
  have a: "\<not> endswith ''resume.PDF'' ''.pdf''" and b: "\<not> endswith ''resume.PDF'' ''.docx''"
    by (simp_all add: endswith_def)
  from unsupported_file_type[OF a b] a b show ?thesis by simp
qed

lemma pdf_pages_eq:
  "pdf_pages pages acc = acc @ concat (map pdf_line (takeWhile (\<lambda>p. \<not> isl p) pages))"
  by (induction pages acc rule: pdf_pages.induct) (auto simp: pdf_line_def split: option.splits)

lemma docx_paragraphs_eq:
  "docx_paragraphs paras acc = acc @ concat (map docx_line (takeWhile (\<lambda>p. \<not> isl p) paras))"
  by (induction paras acc rule: docx_paragraphs.induct) (auto simp: docx_line_def)

text \<open>
  Claim C9. The two extraction functions return a text for every stream and never an
  exception: nothing when the document cannot be opened, and otherwise the lines of the pages
  or paragraphs read before the first failure. A document that cannot be opened therefore
  reaches the caller of the orchestrator as the empty-document error.
\<close>

theorem extraction_total:
  "extract_text_from_pdf fs =
     (case PdfReader fs of
        Inl e \<Rightarrow> []
      | Inr pages \<Rightarrow> concat (map pdf_line (takeWhile (\<lambda>p. \<not> isl p) pages))) \<and>
   extract_text_from_docx fs =
     (case Document fs of
        Inl e \<Rightarrow> []
      | Inr paras \<Rightarrow> concat (map docx_line (takeWhile (\<lambda>p. \<not> isl p) paras))) \<and>
   (isl (PdfReader fs) \<and> endswith filename ''.pdf'' \<or>
    isl (Document fs) \<and> \<not> endswith filename ''.pdf'' \<and> endswith filename ''.docx'' \<longrightarrow>
    analyze_resume_file env fs filename target_role nlp_model w =
      (Inl (ValueError
         ''Could not extract text from the document. It might be empty or image-based.''), w))"
proof -
  have "strip [] = []" by (simp add: strip_def)
  then show ?thesis
    by (auto simp: extract_text_from_pdf_def extract_text_from_docx_def pdf_pages_eq
        docx_paragraphs_eq analyze_resume_file_def isl_def split: sum.splits)
qed

theorem extraction_total_witness:
  "extract_text_from_pdf
     \<lparr>PdfReader = Inr [Inr (Some ''Python''), Inl (Exception ''bad page''), Inr (Some ''Java'')],
      Document = Inl (Exception ''not a zip file'')\<rparr> = ''Python'' @ [newline] \<and>
   analyze_resume_file env0
     \<lparr>PdfReader = Inr [Inr (Some ''Python''), Inl (Exception ''bad page''), Inr (Some ''Java'')],
      Document = Inl (Exception ''not a zip file'')\<rparr>
     ''cv.docx'' ''Software Engineer'' (\<lambda>t. Inr []) w0 =
     (Inl (ValueError
        ''Could not extract text from the document. It might be empty or image-based.''), w0)"
proof -
  let ?fs = "\<lparr>PdfReader = Inr [Inr (Some ''Python''), Inl (Exception ''bad page''),
                               Inr (Some ''Java'')],
              Document = Inl (Exception ''not a zip file'')\<rparr>"
  have a: "isl (Document ?fs) \<and> \<not> endswith ''cv.docx'' ''.pdf'' \<and> endswith ''cv.docx'' ''.docx''"
    by (simp add: endswith_def)
  from extraction_total[of ?fs "''cv.docx''" env0 "''Software Engineer''" "\<lambda>t. Inr []" w0] a
  show ?thesis
    by (simp add: pdf_line_def)
qed

end
